theory Spec2Isabelle
  imports Main "HOL-Library.Word"
begin

section \<open>Status messages, host commands and the event trace\<close>

text \<open>
  The hooks report to the user through \<open>showStatus(message, isError)\<close> and talk to the
  host process through \<open>invoke(command, args)\<close>. The source's messages are Chinese text,
  some of them template strings; each is a constructor here, carrying what the template
  interpolates. The comment of each constructor gives the place in the source and an
  English rendering.
\<close>

type_synonym err = string
  \<comment> \<open>the text of a caught error, as the templates print it\<close>

datatype msg =
    AutoBackedUp string
      \<comment> \<open>use-backup-management.ts:64, "auto-backed up the current user: <email>"\<close>
  | NoLoggedInUser
      \<comment> \<open>use-backup-management.ts:68, "no logged-in user detected"\<close>
  | AutoBackupFailed err
      \<comment> \<open>use-backup-management.ts:73, "auto backup failed: <error>"\<close>
  | RefreshOkUpdated
      \<comment> \<open>use-backup-management.ts:112, "refreshed and backup updated"\<close>
  | RefreshOk
      \<comment> \<open>use-backup-management.ts:117, "refreshed"\<close>
  | ListFailed err
      \<comment> \<open>use-backup-management.ts:121, "fetching the backup list failed: <error>"\<close>
  | RefreshFailed err
      \<comment> \<open>use-backup-management.ts:138, "refresh failed: <error>"\<close>
  | DeleteOk string
      \<comment> \<open>ManageSection:35, "backup <name> deleted"\<close>
  | DeleteFailed err
      \<comment> \<open>ManageSection:44, "deleting the backup failed: <error>"\<close>
  | NothingToClear
      \<comment> \<open>ManageSection:71, "there are no user backups to clear"\<close>
  | ClearFailed err
      \<comment> \<open>ManageSection:89, "clearing the backups failed: <error>"\<close>
  | Verbatim string
      \<comment> \<open>a text produced elsewhere and shown as it is (ManageSection:81,
          use-config-manager:141, :169, :215)\<close>
  | Decrypting
      \<comment> \<open>use-config-manager:155, "decrypting the configuration file..."\<close>
  | ImportOk nat
      \<comment> \<open>use-config-manager:161, "configuration imported (version: <n>)"\<close>
  | ImportFailed err
      \<comment> \<open>use-config-manager:174, "importing the configuration failed: <error>"\<close>
  | SelectFileFailed err
      \<comment> \<open>use-config-manager:183, "selecting the file failed: <error>"\<close>
  | NoExportableData
      \<comment> \<open>use-config-manager:194, "no user information found, cannot export"\<close>
  | Encrypting
      \<comment> \<open>use-config-manager:208, "generating the encrypted configuration file..."\<close>
  | Saved string
      \<comment> \<open>use-config-manager:213, "configuration file saved: <path>"\<close>
  | ExportFailed err
      \<comment> \<open>use-config-manager:220, "exporting the configuration failed: <error>"\<close>

datatype command =
    list_backups
  | get_current_antigravity_info
  | backup_antigravity_current_account string
  | delete_backup string
  | clear_all_backups

text \<open>
  The trace records, in order, each request sent to the host (\<open>Invoke\<close>), how its promise
  settled (\<open>Resolved\<close> or \<open>Rejected\<close> with the error), each timer waited for (\<open>Sleep\<close>,
  in milliseconds) and each call of \<open>showStatus\<close>.
\<close>

datatype event =
    Invoke command
  | Resolved
  | Rejected err
  | Sleep nat
  | ShowStatus msg bool

fun is_rejection :: "event \<Rightarrow> bool" where
  "is_rejection (Rejected e) = True"
| "is_rejection _ = False"

fun is_error_status :: "event \<Rightarrow> bool" where
  "is_error_status (ShowStatus m e) = e"
| "is_error_status _ = False"

fun mutating :: "event \<Rightarrow> bool" where
  "mutating (Invoke (backup_antigravity_current_account a)) = True"
| "mutating (Invoke (delete_backup n)) = True"
| "mutating (Invoke clear_all_backups) = True"
| "mutating _ = False"

fun auto_backup_call :: "event \<Rightarrow> bool" where
  "auto_backup_call (Invoke get_current_antigravity_info) = True"
| "auto_backup_call (Invoke (backup_antigravity_current_account a)) = True"
| "auto_backup_call _ = False"

section \<open>The host command surface\<close>

text \<open>
  \<open>AntigravityCurrentUserInfo\<close> is declared in \<open>types/tauri\<close>; the hook reads the three
  fields below. A field that is absent is \<open>None\<close>; JavaScript takes an absent or empty
  string as false.
\<close>

record user_info =
  apiKey :: "string option"
  userStatusProtoBinaryBase64 :: "string option"
  email :: string

fun truthy :: "string option \<Rightarrow> bool" where
  "truthy None = False"
| "truthy (Some s) = (s \<noteq> [])"

text \<open>
  The host is any state machine answering the five commands; every answer is either a
  rejection (\<open>Inl\<close>, the promise rejects) or a value. Theorems quantify over all hosts.
\<close>

record 'h host =
  h_list_backups :: "'h \<Rightarrow> (err + string list) \<times> 'h"
  h_get_current_info :: "'h \<Rightarrow> (err + user_info option) \<times> 'h"
  h_backup_current :: "string \<Rightarrow> 'h \<Rightarrow> (err + unit) \<times> 'h"
  h_delete_backup :: "string \<Rightarrow> 'h \<Rightarrow> (err + unit) \<times> 'h"
  h_clear_all :: "'h \<Rightarrow> (err + string) \<times> 'h"

section \<open>The backup hook and the manage section\<close>

text \<open>
  The state of \<open>useBackupManagement\<close> (\<open>backups\<close>, \<open>isRefreshing\<close>,
  \<open>isInitialLoading\<close>), of \<open>ManageSection\<close> (the two dialogs and their flags), the
  host's state, and the trace of what was sent to the host, slept and shown.
\<close>

record 'h world =
  store :: 'h
  backups :: "string list"
  isRefreshing :: bool
  isInitialLoading :: bool
  isClearDialogOpen :: bool
  isClearing :: bool
  deleteDialogOpen :: bool
  backupToDelete :: "string option"
  isDeleting :: bool
  trace :: "event list"

definition FILE_WRITE_DELAY_MS :: nat where
  "FILE_WRITE_DELAY_MS = 500"

definition emit :: "event \<Rightarrow> 'h world \<Rightarrow> 'h world" where
  "emit ev w = w\<lparr>trace := trace w @ [ev]\<rparr>"

definition showStatus :: "msg \<Rightarrow> bool \<Rightarrow> 'h world \<Rightarrow> 'h world" where
  "showStatus m e w = emit (ShowStatus m e) w"

definition settle :: "err + 'a \<Rightarrow> event" where
  "settle r = (case r of Inl e \<Rightarrow> Rejected e | Inr v \<Rightarrow> Resolved)"

text \<open>
  \<open>await invoke(...)\<close>, one function for each result type: the request is traced, the
  host answers, the settlement is traced.
\<close>

definition invoke_list_backups :: "'h host \<Rightarrow> 'h world \<Rightarrow> (err + string list) \<times> 'h world" where
  "invoke_list_backups H w =
     (let w1 = emit (Invoke list_backups) w;
          (r, s) = h_list_backups H (store w1)
      in (r, emit (settle r) (w1\<lparr>store := s\<rparr>)))"

definition invoke_get_current_info :: "'h host \<Rightarrow> 'h world \<Rightarrow> (err + user_info option) \<times> 'h world" where
  "invoke_get_current_info H w =
     (let w1 = emit (Invoke get_current_antigravity_info) w;
          (r, s) = h_get_current_info H (store w1)
      in (r, emit (settle r) (w1\<lparr>store := s\<rparr>)))"

definition invoke_backup_current :: "'h host \<Rightarrow> string \<Rightarrow> 'h world \<Rightarrow> (err + unit) \<times> 'h world" where
  "invoke_backup_current H a w =
     (let w1 = emit (Invoke (backup_antigravity_current_account a)) w;
          (r, s) = h_backup_current H a (store w1)
      in (r, emit (settle r) (w1\<lparr>store := s\<rparr>)))"

definition invoke_delete_backup :: "'h host \<Rightarrow> string \<Rightarrow> 'h world \<Rightarrow> (err + unit) \<times> 'h world" where
  "invoke_delete_backup H n w =
     (let w1 = emit (Invoke (delete_backup n)) w;
          (r, s) = h_delete_backup H n (store w1)
      in (r, emit (settle r) (w1\<lparr>store := s\<rparr>)))"

definition invoke_clear_all :: "'h host \<Rightarrow> 'h world \<Rightarrow> (err + string) \<times> 'h world" where
  "invoke_clear_all H w =
     (let w1 = emit (Invoke clear_all_backups) w;
          (r, s) = h_clear_all H (store w1)
      in (r, emit (settle r) (w1\<lparr>store := s\<rparr>)))"

text \<open>
  Every async function returns \<open>err + 'a\<close> beside the new world: \<open>Inl\<close> is a rejected
  promise. \<open>fetchBackups\<close> (lines 36-40) publishes the list it read.
\<close>

definition fetchBackups :: "'h host \<Rightarrow> 'h world \<Rightarrow> (err + string list) \<times> 'h world" where
  "fetchBackups H w =
     (case invoke_list_backups H w of
        (Inl e, w1) \<Rightarrow> (Inl e, w1)
      | (Inr backupList, w1) \<Rightarrow> (Inr backupList, w1\<lparr>backups := backupList\<rparr>))"

text \<open>The \<open>try\<close> block of \<open>autoBackupCurrentUser\<close> (lines 48-70).\<close>

definition autoBackup_try :: "'h host \<Rightarrow> 'h world \<Rightarrow> (err + bool) \<times> 'h world" where
  "autoBackup_try H w =
     (case invoke_get_current_info H w of
        (Inl e, w1) \<Rightarrow> (Inl e, w1)
      | (Inr currentInfo, w1) \<Rightarrow>
          (case currentInfo of
             None \<Rightarrow> (Inr False, showStatus NoLoggedInUser False w1)
           | Some info \<Rightarrow>
               if truthy (apiKey info) \<or> truthy (userStatusProtoBinaryBase64 info) then
                 (let userEmail = email info in
                  case invoke_backup_current H userEmail w1 of
                    (Inl e, w2) \<Rightarrow> (Inl e, w2)
                  | (Inr u, w2) \<Rightarrow> (Inr True, showStatus (AutoBackedUp userEmail) False w2))
               else (Inr False, showStatus NoLoggedInUser False w1)))"

text \<open>\<open>autoBackupCurrentUser\<close> (lines 46-76): the \<open>catch\<close> reports and returns false.\<close>

definition autoBackupCurrentUser :: "'h host \<Rightarrow> 'h world \<Rightarrow> (err + bool) \<times> 'h world" where
  "autoBackupCurrentUser H w =
     (case autoBackup_try H w of
        (Inl e, w1) \<Rightarrow> (Inr False, showStatus (AutoBackupFailed e) True w1)
      | (Inr b, w1) \<Rightarrow> (Inr b, w1))"

text \<open>\<open>waitForFileWrite\<close> (lines 81-83): a timer of \<open>FILE_WRITE_DELAY_MS\<close>.\<close>

definition waitForFileWrite :: "'h world \<Rightarrow> 'h world" where
  "waitForFileWrite w = emit (Sleep FILE_WRITE_DELAY_MS) w"

text \<open>Lines 107-118 of \<open>refreshBackupList\<close>: the end of its \<open>try\<close> block.\<close>

definition refresh_done :: "bool \<Rightarrow> bool \<Rightarrow> 'h world \<Rightarrow> (err + unit) \<times> 'h world" where
  "refresh_done autoBackedUp skipAutoBackup w =
     (let w1 = w\<lparr>isInitialLoading := False\<rparr> in
      if autoBackedUp then (Inr (), showStatus RefreshOkUpdated False w1)
      else if \<not> skipAutoBackup then (Inr (), w1)
      else (Inr (), showStatus RefreshOk False w1))"

text \<open>The \<open>try\<close> block of \<open>refreshBackupList\<close> (lines 92-118).\<close>

definition refresh_try :: "'h host \<Rightarrow> bool \<Rightarrow> 'h world \<Rightarrow> (err + unit) \<times> 'h world" where
  "refresh_try H skipAutoBackup w =
     (case fetchBackups H w of
        (Inl e, w1) \<Rightarrow> (Inl e, w1)
      | (Inr l1, w1) \<Rightarrow>
          if \<not> skipAutoBackup then
            (case autoBackupCurrentUser H w1 of
               (Inl e, w2) \<Rightarrow> (Inl e, w2)
             | (Inr autoBackedUp, w2) \<Rightarrow>
                 if autoBackedUp then
                   (case fetchBackups H (waitForFileWrite w2) of
                      (Inl e, w3) \<Rightarrow> (Inl e, w3)
                    | (Inr l2, w3) \<Rightarrow> refresh_done True skipAutoBackup w3)
                 else refresh_done False skipAutoBackup w2)
          else refresh_done False skipAutoBackup w1)"

text \<open>\<open>refreshBackupList\<close> (lines 89-124).\<close>

definition refreshBackupList :: "'h host \<Rightarrow> bool \<Rightarrow> 'h world \<Rightarrow> (err + unit) \<times> 'h world" where
  "refreshBackupList H skipAutoBackup w =
     (case refresh_try H skipAutoBackup w of
        (Inl e, w1) \<Rightarrow> (Inr (), (showStatus (ListFailed e) True w1)\<lparr>isInitialLoading := False\<rparr>)
      | (Inr u, w1) \<Rightarrow> (Inr (), w1))"

text \<open>\<open>handleRefresh\<close> (lines 129-142).\<close>

definition handleRefresh :: "'h host \<Rightarrow> 'h world \<Rightarrow> (err + unit) \<times> 'h world" where
  "handleRefresh H w =
     (case refreshBackupList H False (w\<lparr>isRefreshing := True\<rparr>) of
        (Inl e, w1) \<Rightarrow> (Inr (), (showStatus (RefreshFailed e) True w1)\<lparr>isRefreshing := False\<rparr>)
      | (Inr u, w1) \<Rightarrow> (Inr (), w1\<lparr>isRefreshing := False\<rparr>))"

text \<open>
  \<open>ManageSection\<close>. \<open>MainApp\<close> passes \<open>refreshBackupList\<close> as \<open>onRefresh\<close> and the hook's
  \<open>backups\<close> as \<open>backups\<close>, so the test \<open>if (onRefresh)\<close> holds.
\<close>

definition handleDeleteBackup :: "string \<Rightarrow> 'h world \<Rightarrow> 'h world" where
  "handleDeleteBackup backupName w = w\<lparr>backupToDelete := Some backupName, deleteDialogOpen := True\<rparr>"

text \<open>The \<open>try\<close> block of \<open>confirmDeleteBackup\<close> (lines 34-42).\<close>

definition delete_try :: "'h host \<Rightarrow> string \<Rightarrow> 'h world \<Rightarrow> (err + unit) \<times> 'h world" where
  "delete_try H name w =
     (case invoke_delete_backup H name w of
        (Inl e, w1) \<Rightarrow> (Inl e, w1)
      | (Inr u, w1) \<Rightarrow>
          refreshBackupList H True
            ((showStatus (DeleteOk name) False w1)\<lparr>deleteDialogOpen := False, backupToDelete := None\<rparr>))"

text \<open>\<open>confirmDeleteBackup\<close> (lines 29-48); an absent or empty name returns at once.\<close>

definition confirmDeleteBackup :: "'h host \<Rightarrow> 'h world \<Rightarrow> (err + unit) \<times> 'h world" where
  "confirmDeleteBackup H w =
     (if \<not> truthy (backupToDelete w) then (Inr (), w)
      else
        (case delete_try H (the (backupToDelete w)) (w\<lparr>isDeleting := True\<rparr>) of
           (Inl e, w1) \<Rightarrow> (Inr (), (showStatus (DeleteFailed e) True w1)\<lparr>isDeleting := False\<rparr>)
         | (Inr u, w1) \<Rightarrow> (Inr (), w1\<lparr>isDeleting := False\<rparr>)))"

text \<open>\<open>handleClearAllBackups\<close> (lines 69-75).\<close>

definition handleClearAllBackups :: "'h world \<Rightarrow> 'h world" where
  "handleClearAllBackups w =
     (if length (backups w) = 0 then showStatus NothingToClear True w
      else w\<lparr>isClearDialogOpen := True\<rparr>)"

text \<open>The \<open>try\<close> block of \<open>confirmClearAllBackups\<close> (lines 80-87).\<close>

definition clear_try :: "'h host \<Rightarrow> 'h world \<Rightarrow> (err + unit) \<times> 'h world" where
  "clear_try H w =
     (case invoke_clear_all H w of
        (Inl e, w1) \<Rightarrow> (Inl e, w1)
      | (Inr result, w1) \<Rightarrow>
          refreshBackupList H True
            ((showStatus (Verbatim result) False w1)\<lparr>isClearDialogOpen := False\<rparr>))"

text \<open>\<open>confirmClearAllBackups\<close> (lines 77-93).\<close>

definition confirmClearAllBackups :: "'h host \<Rightarrow> 'h world \<Rightarrow> (err + unit) \<times> 'h world" where
  "confirmClearAllBackups H w =
     (case clear_try H (w\<lparr>isClearing := True\<rparr>) of
        (Inl e, w1) \<Rightarrow> (Inr (), (showStatus (ClearFailed e) True w1)\<lparr>isClearing := False\<rparr>)
      | (Inr u, w1) \<Rightarrow> (Inr (), w1\<lparr>isClearing := False\<rparr>))"

text \<open>
  What the rendered section lets the user click. The clear-all button is rendered only
  while the list is not empty (line 100). A delete button is rendered for each listed
  name once the initial load is over (lines 111-141); it is disabled only while a switch
  to that account runs, which is not modelled. The two confirm buttons stand inside
  their dialogs, which are rendered while open, and are disabled while the operation
  runs (lines 150-171 and 188-209). \<open>None\<close>: there is no such button to click.
\<close>

definition click_delete :: "string \<Rightarrow> 'h world \<Rightarrow> 'h world option" where
  "click_delete backupName w =
     (if \<not> isInitialLoading w \<and> backupName \<in> set (backups w)
      then Some (handleDeleteBackup backupName w) else None)"

definition click_confirm_delete :: "'h host \<Rightarrow> 'h world \<Rightarrow> ((err + unit) \<times> 'h world) option" where
  "click_confirm_delete H w =
     (if deleteDialogOpen w \<and> \<not> isDeleting w then Some (confirmDeleteBackup H w) else None)"

definition click_clear_all :: "'h world \<Rightarrow> 'h world option" where
  "click_clear_all w = (if length (backups w) > 0 then Some (handleClearAllBackups w) else None)"

definition click_confirm_clear :: "'h host \<Rightarrow> 'h world \<Rightarrow> ((err + unit) \<times> 'h world) option" where
  "click_confirm_clear H w =
     (if isClearDialogOpen w \<and> \<not> isClearing w then Some (confirmClearAllBackups H w) else None)"

text \<open>What an operation added to the trace.\<close>

definition added :: "'h world \<Rightarrow> 'h world \<Rightarrow> event list" where
  "added w w' = drop (length (trace w)) (trace w')"

section \<open>A store for concrete runs\<close>

text \<open>
  Modelled from the spec: the host command surface (the Rust side of the application is
  not among the sources). Section 6 of the specification gives its contract: the list of
  names, the live account or none, write with overwrite-by-name, delete where an absent
  name is an error, clear-all. \<open>faults\<close> scripts rejections: the head says whether the
  next command is rejected; an empty script rejects nothing.
\<close>

record store_state =
  entries :: "string list"
  live :: "user_info option"
  faults :: "bool list"

definition next_fault :: "store_state \<Rightarrow> bool \<times> store_state" where
  "next_fault s = (case faults s of [] \<Rightarrow> (False, s) | f # fs \<Rightarrow> (f, s\<lparr>faults := fs\<rparr>))"

definition store_list :: "store_state \<Rightarrow> (err + string list) \<times> store_state" where
  "store_list s =
     (case next_fault s of
        (True, s1) \<Rightarrow> (Inl ''store unavailable'', s1)
      | (False, s1) \<Rightarrow> (Inr (entries s1), s1))"

definition store_current :: "store_state \<Rightarrow> (err + user_info option) \<times> store_state" where
  "store_current s =
     (case next_fault s of
        (True, s1) \<Rightarrow> (Inl ''store unavailable'', s1)
      | (False, s1) \<Rightarrow> (Inr (live s1), s1))"

definition store_backup :: "string \<Rightarrow> store_state \<Rightarrow> (err + unit) \<times> store_state" where
  "store_backup a s =
     (case next_fault s of
        (True, s1) \<Rightarrow> (Inl ''store unavailable'', s1)
      | (False, s1) \<Rightarrow>
          (Inr (), s1\<lparr>entries := (if a \<in> set (entries s1) then entries s1 else entries s1 @ [a])\<rparr>))"

definition store_delete :: "string \<Rightarrow> store_state \<Rightarrow> (err + unit) \<times> store_state" where
  "store_delete n s =
     (case next_fault s of
        (True, s1) \<Rightarrow> (Inl ''store unavailable'', s1)
      | (False, s1) \<Rightarrow>
          (if n \<in> set (entries s1) then (Inr (), s1\<lparr>entries := removeAll n (entries s1)\<rparr>)
           else (Inl ''backup not found'', s1)))"

text \<open>The count of removed backups is answered in decimal.\<close>

fun decimal :: "nat \<Rightarrow> string" where
  "decimal n =
     (if n < 10 then [''0123456789'' ! n]
      else decimal (n div 10) @ [''0123456789'' ! (n mod 10)])"

declare decimal.simps [simp del]

definition store_clear :: "store_state \<Rightarrow> (err + string) \<times> store_state" where
  "store_clear s =
     (case next_fault s of
        (True, s1) \<Rightarrow> (Inl ''store unavailable'', s1)
      | (False, s1) \<Rightarrow>
          (Inr (''removed '' @ decimal (length (entries s1))), s1\<lparr>entries := []\<rparr>))"

definition store_host :: "store_state host" where
  "store_host =
     \<lparr>h_list_backups = store_list, h_get_current_info = store_current,
      h_backup_current = store_backup, h_delete_backup = store_delete,
      h_clear_all = store_clear\<rparr>"

definition alice :: user_info where
  "alice = \<lparr>apiKey = Some ''k-1'', userStatusProtoBinaryBase64 = None, email = ''alice@example.com''\<rparr>"

text \<open>The world when the hook and the section mount (lines 29-31, ManageSection 17-22).\<close>

definition mount :: "'h \<Rightarrow> 'h world" where
  "mount s =
     \<lparr>store = s, backups = [], isRefreshing = False, isInitialLoading = True,
      isClearDialogOpen = False, isClearing = False, deleteDialogOpen = False,
      backupToDelete = None, isDeleting = False, trace = []\<rparr>"

section \<open>What the host answers to an auto-backup\<close>

text \<open>
  The auto-backup asks the host for the live account and, when there is one, asks it to
  write the backup. \<open>auto_backup_outcome\<close> names the four ways the host can answer from
  state \<open>s\<close>, and \<open>auto_backup_store\<close> is the host's state afterwards.
\<close>

datatype outcome =
    ReadFailed err
  | NoActiveAccount
  | WriteFailed string err
  | BackedUp string

definition auto_backup_outcome :: "'h host \<Rightarrow> 'h \<Rightarrow> outcome" where
  "auto_backup_outcome H s =
     (case h_get_current_info H s of
        (Inl e, s1) \<Rightarrow> ReadFailed e
      | (Inr None, s1) \<Rightarrow> NoActiveAccount
      | (Inr (Some info), s1) \<Rightarrow>
          if truthy (apiKey info) \<or> truthy (userStatusProtoBinaryBase64 info) then
            (case h_backup_current H (email info) s1 of
               (Inl e, s2) \<Rightarrow> WriteFailed (email info) e
             | (Inr u, s2) \<Rightarrow> BackedUp (email info))
          else NoActiveAccount)"

definition auto_backup_store :: "'h host \<Rightarrow> 'h \<Rightarrow> 'h" where
  "auto_backup_store H s =
     (case h_get_current_info H s of
        (Inr (Some info), s1) \<Rightarrow>
          if truthy (apiKey info) \<or> truthy (userStatusProtoBinaryBase64 info)
          then snd (h_backup_current H (email info) s1) else s1
      | (r, s1) \<Rightarrow> s1)"

fun backed_up :: "outcome \<Rightarrow> bool" where
  "backed_up (BackedUp a) = True"
| "backed_up _ = False"

fun outcome_events :: "outcome \<Rightarrow> event list" where
  "outcome_events (ReadFailed e) =
     [Invoke get_current_antigravity_info, Rejected e, ShowStatus (AutoBackupFailed e) True]"
| "outcome_events NoActiveAccount =
     [Invoke get_current_antigravity_info, Resolved, ShowStatus NoLoggedInUser False]"
| "outcome_events (WriteFailed a e) =
     [Invoke get_current_antigravity_info, Resolved,
      Invoke (backup_antigravity_current_account a), Rejected e,
      ShowStatus (AutoBackupFailed e) True]"
| "outcome_events (BackedUp a) =
     [Invoke get_current_antigravity_info, Resolved,
      Invoke (backup_antigravity_current_account a), Resolved,
      ShowStatus (AutoBackedUp a) False]"

text \<open>
  A trace reports its failures once: as many error statuses as rejected requests, and
  at most one of them.
\<close>

definition reported_once :: "event list \<Rightarrow> bool" where
  "reported_once tr =
     (length (filter is_error_status tr) = length (filter is_rejection tr)
      \<and> length (filter is_rejection tr) \<le> 1)"

text \<open>What a refresh that skips the auto-backup adds to the trace, given the host's answer.\<close>

definition skip_refresh_events :: "err + string list \<Rightarrow> event list" where
  "skip_refresh_events r =
     [Invoke list_backups, settle r,
      case r of Inl e \<Rightarrow> ShowStatus (ListFailed e) True | Inr l \<Rightarrow> ShowStatus RefreshOk False]"

section \<open>Refreshes in flight\<close>

text \<open>
  An async function runs until its next \<open>await\<close> and is resumed when the awaited promise
  settles; other calls run in between. An activation of \<open>refreshBackupList\<close> is suspended
  at one of five places: the first \<open>list_backups\<close> (line 93), \<open>get_current_antigravity_info\<close>
  (line 50), \<open>backup_antigravity_current_account\<close> (line 59), the timer (line 82), the second
  \<open>list_backups\<close> (line 103).
\<close>

datatype pc =
    AtList1 bool
  | AtInfo
  | AtBackup string
  | AtSleep
  | AtList2

text \<open>The \<open>catch\<close> of \<open>refreshBackupList\<close> (lines 119-123).\<close>

definition refresh_catch :: "err \<Rightarrow> 'h world \<Rightarrow> 'h world" where
  "refresh_catch e w = (showStatus (ListFailed e) True w)\<lparr>isInitialLoading := False\<rparr>"

text \<open>A call of \<open>refreshBackupList\<close> runs to its first \<open>await\<close>: the request is sent.\<close>

definition begin_refresh :: "bool \<Rightarrow> 'h world \<Rightarrow> pc \<times> 'h world" where
  "begin_refresh skipAutoBackup w = (AtList1 skipAutoBackup, emit (Invoke list_backups) w)"

text \<open>
  The awaited promise settles with the host's answer and the activation runs to its next
  \<open>await\<close> (\<open>Some\<close>) or to its end (\<open>None\<close>).
\<close>

fun resume :: "'h host \<Rightarrow> pc \<Rightarrow> 'h world \<Rightarrow> pc option \<times> 'h world" where
  "resume H (AtList1 skipAutoBackup) w =
     (let (r, s) = h_list_backups H (store w);
          w1 = emit (settle r) (w\<lparr>store := s\<rparr>)
      in case r of
           Inl e \<Rightarrow> (None, refresh_catch e w1)
         | Inr l \<Rightarrow>
             if \<not> skipAutoBackup
             then (Some AtInfo, emit (Invoke get_current_antigravity_info) (w1\<lparr>backups := l\<rparr>))
             else (None, snd (refresh_done False skipAutoBackup (w1\<lparr>backups := l\<rparr>))))"
| "resume H AtInfo w =
     (let (r, s) = h_get_current_info H (store w);
          w1 = emit (settle r) (w\<lparr>store := s\<rparr>)
      in case r of
           Inl e \<Rightarrow> (None, snd (refresh_done False False (showStatus (AutoBackupFailed e) True w1)))
         | Inr None \<Rightarrow> (None, snd (refresh_done False False (showStatus NoLoggedInUser False w1)))
         | Inr (Some info) \<Rightarrow>
             if truthy (apiKey info) \<or> truthy (userStatusProtoBinaryBase64 info)
             then (Some (AtBackup (email info)),
                   emit (Invoke (backup_antigravity_current_account (email info))) w1)
             else (None, snd (refresh_done False False (showStatus NoLoggedInUser False w1))))"
| "resume H (AtBackup a) w =
     (let (r, s) = h_backup_current H a (store w);
          w1 = emit (settle r) (w\<lparr>store := s\<rparr>)
      in case r of
           Inl e \<Rightarrow> (None, snd (refresh_done False False (showStatus (AutoBackupFailed e) True w1)))
         | Inr u \<Rightarrow> (Some AtSleep, waitForFileWrite (showStatus (AutoBackedUp a) False w1)))"
| "resume H AtSleep w = (Some AtList2, emit (Invoke list_backups) w)"
| "resume H AtList2 w =
     (let (r, s) = h_list_backups H (store w);
          w1 = emit (settle r) (w\<lparr>store := s\<rparr>)
      in case r of
           Inl e \<Rightarrow> (None, refresh_catch e w1)
         | Inr l \<Rightarrow> (None, snd (refresh_done True False (w1\<lparr>backups := l\<rparr>))))"

text \<open>One activation run alone, every promise settling before anything else happens.\<close>

fun run_alone :: "nat \<Rightarrow> 'h host \<Rightarrow> pc option \<times> 'h world \<Rightarrow> pc option \<times> 'h world" where
  "run_alone 0 H c = c"
| "run_alone (Suc n) H (None, w) = (None, w)"
| "run_alone (Suc n) H (Some p, w) = run_alone n H (resume H p w)"

text \<open>
  The hook between two events: its world and the activations in flight, each with a mark
  saying whether \<open>handleRefresh\<close> awaits it (and resets \<open>isRefreshing\<close> when it ends).
\<close>

record 'h hook =
  now :: "'h world"
  in_flight :: "(pc \<times> bool) list"

definition idle :: "'h world \<Rightarrow> 'h hook" where
  "idle w = \<lparr>now = w, in_flight = []\<rparr>"

text \<open>
  A call of \<open>refreshBackupList\<close> (line 89) and of \<open>handleRefresh\<close> (line 129). Neither
  reads \<open>isRefreshing\<close> or anything else about the activations in flight.
\<close>

definition call_refreshBackupList :: "bool \<Rightarrow> 'h hook \<Rightarrow> 'h hook" where
  "call_refreshBackupList skipAutoBackup c =
     (let (p, w) = begin_refresh skipAutoBackup (now c)
      in c\<lparr>now := w, in_flight := in_flight c @ [(p, False)]\<rparr>)"

definition call_handleRefresh :: "'h hook \<Rightarrow> 'h hook" where
  "call_handleRefresh c =
     (let (p, w) = begin_refresh False ((now c)\<lparr>isRefreshing := True\<rparr>)
      in c\<lparr>now := w, in_flight := in_flight c @ [(p, True)]\<rparr>)"

text \<open>The promise awaited by the \<open>i\<close>-th activation settles.\<close>

definition settle_at :: "'h host \<Rightarrow> nat \<Rightarrow> 'h hook \<Rightarrow> 'h hook" where
  "settle_at H i c =
     (if i < length (in_flight c) then
        (let (p, by_button) = in_flight c ! i in
         case resume H p (now c) of
           (Some p', w) \<Rightarrow> c\<lparr>now := w, in_flight := (in_flight c)[i := (p', by_button)]\<rparr>
         | (None, w) \<Rightarrow>
             c\<lparr>now := (if by_button then w\<lparr>isRefreshing := False\<rparr> else w),
               in_flight := take i (in_flight c) @ drop (Suc i) (in_flight c)\<rparr>)
      else c)"

section \<open>The bundle and its container\<close>

text \<open>
  Modelled from the spec: the data model of the bundle codec (section 3). The service
  \<open>config-export-manager\<close>, which owns these types and the codec, is not among the
  sources; the hook \<open>use-config-manager\<close> only passes its values on.
\<close>

type_synonym bytes = "8 word list"

record CredentialRecord =
  account :: string
  payload :: bytes
  metadata :: "string option"

record CredentialBundle =
  records :: "CredentialRecord list"
  version :: nat
  created :: nat

record EncryptedContainer =
  format_version :: nat
  salt :: bytes
  nonce :: bytes
  ciphertext :: bytes

datatype CryptoError = AuthenticationFailed | UnsupportedVersion

text \<open>
  Modelled from the spec: the primitives the codec is built on (sections 4.1 and 4.2),
  which the specification names without fixing: the key derivation, an authenticated
  cipher (\<open>unseal\<close> is \<open>None\<close> when the tag does not verify), a deterministic
  serialisation of the bundle, and the format version the codec writes.
\<close>

record 'k primitives =
  derive :: "string \<Rightarrow> bytes \<Rightarrow> 'k"
  seal :: "'k \<Rightarrow> bytes \<Rightarrow> bytes \<Rightarrow> bytes"
  unseal :: "'k \<Rightarrow> bytes \<Rightarrow> bytes \<Rightarrow> bytes option"
  serialize :: "CredentialBundle \<Rightarrow> bytes"
  deserialize :: "bytes \<Rightarrow> CredentialBundle option"
  current_version :: nat

text \<open>
  Modelled from the spec: \<open>encode\<close> (section 4.2) serialises the bundle, derives the key
  from the password and the fresh salt, encrypts under the fresh nonce and tags the
  container with the current format version. The salt and the nonce are the randomness
  it consumes, so they are arguments here.
\<close>

definition encode :: "'k primitives \<Rightarrow> CredentialBundle \<Rightarrow> string \<Rightarrow> bytes \<Rightarrow> bytes \<Rightarrow> EncryptedContainer" where
  "encode C bundle password fresh_salt fresh_nonce =
     \<lparr>format_version = current_version C, salt = fresh_salt, nonce = fresh_nonce,
      ciphertext = seal C (derive C password fresh_salt) fresh_nonce (serialize C bundle)\<rparr>"

text \<open>
  Modelled from the spec: \<open>decode\<close> (section 4.2) rejects a container of a version beyond
  the codec's, derives the key from the stored salt and the password, and decrypts and
  verifies. A tag that does not verify is \<open>AuthenticationFailed\<close>, whatever the cause;
  so is a plaintext that is not a bundle.
\<close>

definition decode :: "'k primitives \<Rightarrow> EncryptedContainer \<Rightarrow> string \<Rightarrow> CryptoError + CredentialBundle" where
  "decode C container password =
     (if current_version C < format_version container then Inl UnsupportedVersion
      else
        (case unseal C (derive C password (salt container)) (nonce container) (ciphertext container) of
           None \<Rightarrow> Inl AuthenticationFailed
         | Some plain \<Rightarrow>
             (case deserialize C plain of
                None \<Rightarrow> Inl AuthenticationFailed
              | Some bundle \<Rightarrow> Inr bundle)))"

section \<open>The configuration hook\<close>

text \<open>
  \<open>useConfigManager\<close> drives the import and the export. What \<open>ConfigManager\<close> returns
  is read by the hook through the fields below (lines 140-141, 157-169, 192, 210-215).
\<close>

record validation =
  isValid :: bool
  hint :: "string option"

record import_result =
  imp_success :: bool
  imp_message :: string
  encryptedData :: "EncryptedContainer option"

record decrypt_result =
  dec_success :: bool
  dec_message :: string
  configData :: "CredentialBundle option"

record export_result =
  exp_success :: bool
  exp_message :: string
  filePath :: string

text \<open>
  The \<open>ConfigManager\<close> instance of the hook (line 100): any answers. \<open>Inl\<close> is a
  rejected promise.
\<close>

record ConfigManager =
  importEncryptedConfig :: "err + import_result"
  decryptConfigData :: "EncryptedContainer option \<Rightarrow> string \<Rightarrow> err + decrypt_result"
  hasExportableData :: "err + bool"
  exportEncryptedConfig :: "string \<Rightarrow> err + export_result"
  validatePassword :: "string \<Rightarrow> validation"

text \<open>
  The password dialog's configuration (lines 72-78). \<open>onSubmit\<close> is one of the hook's
  two closures; the import's closure holds the data read from the file.
\<close>

datatype dialog_title = ImportTitle | ExportTitle
  \<comment> \<open>lines 147 and 200: "import configuration file", "export configuration file"\<close>

datatype dialog_description = EnterDecryptionPassword | SetExportPassword
  \<comment> \<open>lines 148 and 201\<close>

datatype submit = ImportSubmit "EncryptedContainer option" | ExportSubmit

record PasswordDialogConfig =
  title :: dialog_title
  description :: dialog_description
  requireConfirmation :: bool
  onSubmit :: submit
  dialog_validatePassword :: "string \<Rightarrow> validation"

datatype ui_event =
    Status msg bool
  | ShowPasswordDialog PasswordDialogConfig
  | ClosePasswordDialog
  | RefreshAfter nat
      \<comment> \<open>\<open>setTimeout(onRefresh, ms)\<close>, line 165\<close>

record config_hook =
  isImporting :: bool
  isExporting :: bool
  shown :: "ui_event list"

definition ui :: "ui_event \<Rightarrow> config_hook \<Rightarrow> config_hook" where
  "ui ev st = st\<lparr>shown := shown st @ [ev]\<rparr>"

definition shown_since :: "config_hook \<Rightarrow> config_hook \<Rightarrow> ui_event list" where
  "shown_since st st' = drop (length (shown st)) (shown st')"

fun dialogs :: "ui_event list \<Rightarrow> PasswordDialogConfig list" where
  "dialogs [] = []"
| "dialogs (ShowPasswordDialog d # evs) = d # dialogs evs"
| "dialogs (ev # evs) = dialogs evs"

fun error_texts :: "ui_event list \<Rightarrow> msg list" where
  "error_texts [] = []"
| "error_texts (Status m e # evs) = (if e then m # error_texts evs else error_texts evs)"
| "error_texts (ev # evs) = error_texts evs"

text \<open>\<open>importConfig\<close> (lines 136-185), up to the dialog; its \<open>try\<close> block first.\<close>

definition import_try :: "ConfigManager \<Rightarrow> config_hook \<Rightarrow> (err + unit) \<times> config_hook" where
  "import_try cm st =
     (case importEncryptedConfig cm of
        Inl e \<Rightarrow> (Inl e, st)
      | Inr result \<Rightarrow>
          if \<not> imp_success result then (Inr (), ui (Status (Verbatim (imp_message result)) True) st)
          else
            (Inr (),
             ui (ShowPasswordDialog
                   \<lparr>title = ImportTitle, description = EnterDecryptionPassword,
                    requireConfirmation = False, onSubmit = ImportSubmit (encryptedData result),
                    dialog_validatePassword = (\<lambda>password. validatePassword cm password)\<rparr>) st))"

definition importConfig :: "ConfigManager \<Rightarrow> config_hook \<Rightarrow> (err + unit) \<times> config_hook" where
  "importConfig cm st =
     (case import_try cm st of
        (Inl e, st1) \<Rightarrow> (Inr (), ui (Status (SelectFileFailed e) True) st1)
      | (Inr u, st1) \<Rightarrow> (Inr (), st1))"

text \<open>The import's \<open>onSubmit\<close> (lines 151-178); its \<open>try\<close> block first.\<close>

definition import_submit_try :: "ConfigManager \<Rightarrow> EncryptedContainer option \<Rightarrow> string \<Rightarrow> config_hook \<Rightarrow> (err + unit) \<times> config_hook" where
  "import_submit_try cm data password st =
     (let st1 = ui (Status Decrypting False) ((ui ClosePasswordDialog st)\<lparr>isImporting := True\<rparr>) in
      case decryptConfigData cm data password of
        Inl e \<Rightarrow> (Inl e, st1)
      | Inr decryptResult \<Rightarrow>
          (case (dec_success decryptResult, configData decryptResult) of
             (True, Some config) \<Rightarrow>
               (Inr (), ui (RefreshAfter 500) (ui (Status (ImportOk (version config)) False) st1))
           | _ \<Rightarrow> (Inr (), ui (Status (Verbatim (dec_message decryptResult)) True) st1)))"

definition import_onSubmit :: "ConfigManager \<Rightarrow> EncryptedContainer option \<Rightarrow> string \<Rightarrow> config_hook \<Rightarrow> (err + unit) \<times> config_hook" where
  "import_onSubmit cm data password st =
     (case import_submit_try cm data password st of
        (Inl e, st1) \<Rightarrow> (Inr (), (ui (Status (ImportFailed e) True) st1)\<lparr>isImporting := False\<rparr>)
      | (Inr u, st1) \<Rightarrow> (Inr (), st1\<lparr>isImporting := False\<rparr>))"

text \<open>
  \<open>exportConfig\<close> (lines 190-226), up to the dialog. The call of \<open>hasExportableData\<close>
  stands outside any \<open>try\<close>: its rejection is the rejection of \<open>exportConfig\<close>.
\<close>

definition exportConfig :: "ConfigManager \<Rightarrow> config_hook \<Rightarrow> (err + unit) \<times> config_hook" where
  "exportConfig cm st =
     (case hasExportableData cm of
        Inl e \<Rightarrow> (Inl e, st)
      | Inr hasData \<Rightarrow>
          if \<not> hasData then (Inr (), ui (Status NoExportableData True) st)
          else
            (Inr (),
             ui (ShowPasswordDialog
                   \<lparr>title = ExportTitle, description = SetExportPassword,
                    requireConfirmation = True, onSubmit = ExportSubmit,
                    dialog_validatePassword = (\<lambda>password. validatePassword cm password)\<rparr>) st))"

text \<open>The export's \<open>onSubmit\<close> (lines 204-224); its \<open>try\<close> block first.\<close>

definition export_submit_try :: "ConfigManager \<Rightarrow> string \<Rightarrow> config_hook \<Rightarrow> (err + unit) \<times> config_hook" where
  "export_submit_try cm password st =
     (let st1 = ui (Status Encrypting False) ((ui ClosePasswordDialog st)\<lparr>isExporting := True\<rparr>) in
      case exportEncryptedConfig cm password of
        Inl e \<Rightarrow> (Inl e, st1)
      | Inr exportResult \<Rightarrow>
          if exp_success exportResult
          then (Inr (), ui (Status (Saved (filePath exportResult)) False) st1)
          else (Inr (), ui (Status (Verbatim (exp_message exportResult)) True) st1))"

definition export_onSubmit :: "ConfigManager \<Rightarrow> string \<Rightarrow> config_hook \<Rightarrow> (err + unit) \<times> config_hook" where
  "export_onSubmit cm password st =
     (case export_submit_try cm password st of
        (Inl e, st1) \<Rightarrow> (Inr (), (ui (Status (ExportFailed e) True) st1)\<lparr>isExporting := False\<rparr>)
      | (Inr u, st1) \<Rightarrow> (Inr (), st1\<lparr>isExporting := False\<rparr>))"

text \<open>The dialog runs the closure it was given.\<close>

fun run_onSubmit :: "ConfigManager \<Rightarrow> submit \<Rightarrow> string \<Rightarrow> config_hook \<Rightarrow> (err + unit) \<times> config_hook" where
  "run_onSubmit cm (ImportSubmit data) password st = import_onSubmit cm data password st"
| "run_onSubmit cm ExportSubmit password st = export_onSubmit cm password st"

definition hook_mounted :: config_hook where
  "hook_mounted = \<lparr>isImporting = False, isExporting = False, shown = []\<rparr>"

text \<open>
  Modelled from the spec: \<open>ConfigManager.decryptConfigData\<close> (the service is not among the
  sources), from steps 3 and 4 of the import flow (section 4.4): decode; on
  \<open>AuthenticationFailed\<close> the single generic message; on success check the bundle's
  version against the supported ones and reject an unsupported one.
\<close>

definition generic_failure :: string where
  "generic_failure = ''incorrect password or corrupted file''"

definition unsupported_failure :: string where
  "unsupported_failure = ''unsupported version''"

definition spec_decryptConfigData :: "'k primitives \<Rightarrow> nat list \<Rightarrow> EncryptedContainer option \<Rightarrow> string \<Rightarrow> err + decrypt_result" where
  "spec_decryptConfigData C supported data password =
     (case data of
        None \<Rightarrow> Inr \<lparr>dec_success = False, dec_message = generic_failure, configData = None\<rparr>
      | Some container \<Rightarrow>
          (case decode C container password of
             Inl AuthenticationFailed \<Rightarrow>
               Inr \<lparr>dec_success = False, dec_message = generic_failure, configData = None\<rparr>
           | Inl UnsupportedVersion \<Rightarrow>
               Inr \<lparr>dec_success = False, dec_message = unsupported_failure, configData = None\<rparr>
           | Inr bundle \<Rightarrow>
               if version bundle \<in> set supported
               then Inr \<lparr>dec_success = True, dec_message = [], configData = Some bundle\<rparr>
               else Inr \<lparr>dec_success = False, dec_message = unsupported_failure, configData = None\<rparr>))"

text \<open>
  What a confirmed delete and a confirmed clear-all add to the trace, given the host's
  answers to the command and to the \<open>list_backups\<close> that follows.
\<close>

definition delete_events :: "string \<Rightarrow> err + unit \<Rightarrow> err + string list \<Rightarrow> event list" where
  "delete_events n rd rl =
     (case rd of
        Inl e \<Rightarrow> [Invoke (delete_backup n), Rejected e, ShowStatus (DeleteFailed e) True]
      | Inr u \<Rightarrow> [Invoke (delete_backup n), Resolved, ShowStatus (DeleteOk n) False]
                 @ skip_refresh_events rl)"

definition clear_events :: "err + string \<Rightarrow> err + string list \<Rightarrow> event list" where
  "clear_events rc rl =
     (case rc of
        Inl e \<Rightarrow> [Invoke clear_all_backups, Rejected e, ShowStatus (ClearFailed e) True]
      | Inr result \<Rightarrow> [Invoke clear_all_backups, Resolved, ShowStatus (Verbatim result) False]
                 @ skip_refresh_events rl)"

section \<open>Worlds for concrete runs\<close>

text \<open>
  Freshly mounted worlds over the store above. \<open>W_none\<close>: bob's backup, nobody logged in.
  \<open>W_alice\<close>: bob's backup, alice logged in. \<open>W_fresh\<close>: no backup yet, alice logged
  in. \<open>W_flaky\<close>: as \<open>W_alice\<close>, and the store rejects the fourth command it receives.
  \<open>W_down\<close>: the store rejects the next command; bob's backup is chosen for deletion.
\<close>

definition W_none :: "store_state world" where
  "W_none = mount \<lparr>entries = [''bob''], live = None, faults = []\<rparr>"

definition W_alice :: "store_state world" where
  "W_alice = mount \<lparr>entries = [''bob''], live = Some alice, faults = []\<rparr>"

definition W_fresh :: "store_state world" where
  "W_fresh = mount \<lparr>entries = [], live = Some alice, faults = []\<rparr>"

definition W_flaky :: "store_state world" where
  "W_flaky =
     mount \<lparr>entries = [''bob''], live = Some alice, faults = [False, False, False, True]\<rparr>"

definition W_down :: "store_state world" where
  "W_down =
     handleDeleteBackup ''bob'' (mount \<lparr>entries = [''bob''], live = Some alice, faults = [True]\<rparr>)"

text \<open>
  \<open>W_stale\<close>: bob's backup is published, and the store rejects the next command; bob's
  backup is chosen for deletion. Then a run of the section: \<open>S0\<close> mounts over bob's
  backup, the store rejecting the third command it receives; \<open>S1\<close> has loaded the list;
  in \<open>S2\<close> bob's backup is chosen for deletion; in \<open>S3\<close> the delete is confirmed, the
  store has removed the backup and has rejected the read that follows, so the list still
  shows it. From \<open>S3\<close>, \<open>S4\<close> chooses bob's backup again; \<open>S5\<close> opens the clear-all
  dialog and \<open>S6\<close> confirms it.
\<close>

definition W_stale :: "store_state world" where
  "W_stale =
     handleDeleteBackup ''bob''
       (snd (refreshBackupList store_host True
               (mount \<lparr>entries = [''bob''], live = Some alice, faults = [False, True]\<rparr>)))"

definition S0 :: "store_state world" where
  "S0 = mount \<lparr>entries = [''bob''], live = Some alice, faults = [False, False, True]\<rparr>"

definition S1 :: "store_state world" where
  "S1 = snd (refreshBackupList store_host True S0)"

definition S2 :: "store_state world" where
  "S2 = handleDeleteBackup ''bob'' S1"

definition S3 :: "store_state world" where
  "S3 = snd (confirmDeleteBackup store_host S2)"

definition S4 :: "store_state world" where
  "S4 = handleDeleteBackup ''bob'' S3"

definition S5 :: "store_state world" where
  "S5 = handleClearAllBackups S3"

definition S6 :: "store_state world" where
  "S6 = snd (confirmClearAllBackups store_host S5)"

section \<open>Configuration managers for concrete runs\<close>

text \<open>
  A password policy (at least eight characters), a manager that finds nothing to export
  and reads no file, and a manager that finds data and reads a container.
\<close>

definition policy :: "string \<Rightarrow> validation" where
  "policy password = \<lparr>isValid = (8 \<le> length password), hint = None\<rparr>"

definition manager_without_data :: ConfigManager where
  "manager_without_data =
     \<lparr>importEncryptedConfig =
        Inr \<lparr>imp_success = False, imp_message = ''not a configuration file'',
             encryptedData = None\<rparr>,
      decryptConfigData = (\<lambda>data password. Inl ''nothing to decrypt''),
      hasExportableData = Inr False,
      exportEncryptedConfig = (\<lambda>password. Inl ''nothing to export''),
      validatePassword = policy\<rparr>"

definition a_container :: EncryptedContainer where
  "a_container = \<lparr>format_version = 1, salt = [1, 2], nonce = [3], ciphertext = [4, 5, 6]\<rparr>"

definition manager_with_data :: ConfigManager where
  "manager_with_data =
     \<lparr>importEncryptedConfig =
        Inr \<lparr>imp_success = True, imp_message = [], encryptedData = Some a_container\<rparr>,
      decryptConfigData =
        (\<lambda>data password.
           Inr \<lparr>dec_success = False, dec_message = ''wrong'', configData = None\<rparr>),
      hasExportableData = Inr True,
      exportEncryptedConfig =
        (\<lambda>password.
           Inr \<lparr>exp_success = True, exp_message = [], filePath = ''/tmp/accounts.enc''\<rparr>),
      validatePassword = policy\<rparr>"

section \<open>A codec for concrete runs\<close>

text \<open>
  The specification leaves the primitives of the codec open. For running \<open>encode\<close> and
  \<open>decode\<close> on concrete bundles, here is one choice of them: a serialisation with
  length prefixes (numbers in unary), and a cipher that adds the key to every byte and
  prepends a checksum of key, nonce and plaintext as its tag. It stands for no real
  cryptography; it only obeys the contract of the primitives.
\<close>

definition byte_of_char :: "char \<Rightarrow> 8 word" where
  "byte_of_char c = of_nat (of_char c)"

definition char_of_byte :: "8 word \<Rightarrow> char" where
  "char_of_byte b = char_of (unat b)"

fun put_nat :: "nat \<Rightarrow> bytes" where
  "put_nat 0 = [0]"
| "put_nat (Suc n) = 1 # put_nat n"

fun get_nat :: "bytes \<Rightarrow> (nat \<times> bytes) option" where
  "get_nat [] = None"
| "get_nat (b # bs) =
     (if b = 0 then Some (0, bs)
      else (case get_nat bs of None \<Rightarrow> None | Some (n, rest) \<Rightarrow> Some (Suc n, rest)))"

definition put_bytes :: "bytes \<Rightarrow> bytes" where
  "put_bytes bs = put_nat (length bs) @ bs"

definition get_bytes :: "bytes \<Rightarrow> (bytes \<times> bytes) option" where
  "get_bytes xs =
     (case get_nat xs of
        None \<Rightarrow> None
      | Some (n, rest) \<Rightarrow> if n \<le> length rest then Some (take n rest, drop n rest) else None)"

definition put_string :: "string \<Rightarrow> bytes" where
  "put_string s = put_bytes (map byte_of_char s)"

definition get_string :: "bytes \<Rightarrow> (string \<times> bytes) option" where
  "get_string xs =
     (case get_bytes xs of None \<Rightarrow> None | Some (bs, rest) \<Rightarrow> Some (map char_of_byte bs, rest))"

fun put_option :: "string option \<Rightarrow> bytes" where
  "put_option None = [0]"
| "put_option (Some s) = 1 # put_string s"

fun get_option :: "bytes \<Rightarrow> (string option \<times> bytes) option" where
  "get_option [] = None"
| "get_option (b # bs) =
     (if b = 0 then Some (None, bs)
      else (case get_string bs of None \<Rightarrow> None | Some (s, rest) \<Rightarrow> Some (Some s, rest)))"

definition put_record :: "CredentialRecord \<Rightarrow> bytes" where
  "put_record r = put_string (account r) @ put_bytes (payload r) @ put_option (metadata r)"

definition get_record :: "bytes \<Rightarrow> (CredentialRecord \<times> bytes) option" where
  "get_record xs =
     (case get_string xs of
        None \<Rightarrow> None
      | Some (a, r1) \<Rightarrow>
          (case get_bytes r1 of
             None \<Rightarrow> None
           | Some (p, r2) \<Rightarrow>
               (case get_option r2 of
                  None \<Rightarrow> None
                | Some (m, r3) \<Rightarrow> Some (\<lparr>account = a, payload = p, metadata = m\<rparr>, r3))))"

fun put_records :: "CredentialRecord list \<Rightarrow> bytes" where
  "put_records [] = []"
| "put_records (r # rs) = put_record r @ put_records rs"

fun get_records :: "nat \<Rightarrow> bytes \<Rightarrow> (CredentialRecord list \<times> bytes) option" where
  "get_records 0 xs = Some ([], xs)"
| "get_records (Suc n) xs =
     (case get_record xs of
        None \<Rightarrow> None
      | Some (r, r1) \<Rightarrow>
          (case get_records n r1 of None \<Rightarrow> None | Some (rs, r2) \<Rightarrow> Some (r # rs, r2)))"

definition toy_serialize :: "CredentialBundle \<Rightarrow> bytes" where
  "toy_serialize b =
     put_nat (version b) @ put_nat (created b) @ put_nat (length (records b)) @ put_records (records b)"

definition toy_deserialize :: "bytes \<Rightarrow> CredentialBundle option" where
  "toy_deserialize xs =
     (case get_nat xs of
        None \<Rightarrow> None
      | Some (v, r1) \<Rightarrow>
          (case get_nat r1 of
             None \<Rightarrow> None
           | Some (c, r2) \<Rightarrow>
               (case get_nat r2 of
                  None \<Rightarrow> None
                | Some (n, r3) \<Rightarrow>
                    (case get_records n r3 of
                       None \<Rightarrow> None
                     | Some (rs, r4) \<Rightarrow>
                         if r4 = [] then Some \<lparr>records = rs, version = v, created = c\<rparr> else None))))"

definition toy_derive :: "string \<Rightarrow> bytes \<Rightarrow> 8 word" where
  "toy_derive password s = sum_list (map byte_of_char password) + sum_list s"

definition toy_tag :: "8 word \<Rightarrow> bytes \<Rightarrow> bytes \<Rightarrow> 8 word" where
  "toy_tag k n plain = k + sum_list n + sum_list plain"

definition toy_seal :: "8 word \<Rightarrow> bytes \<Rightarrow> bytes \<Rightarrow> bytes" where
  "toy_seal k n plain = toy_tag k n plain # map (\<lambda>b. b + k) plain"

definition toy_unseal :: "8 word \<Rightarrow> bytes \<Rightarrow> bytes \<Rightarrow> bytes option" where
  "toy_unseal k n sealed =
     (case sealed of
        [] \<Rightarrow> None
      | t # body \<Rightarrow>
          (let plain = map (\<lambda>b. b - k) body
           in if t = toy_tag k n plain then Some plain else None))"

definition toy :: "8 word primitives" where
  "toy = \<lparr>derive = toy_derive, seal = toy_seal, unseal = toy_unseal,
          serialize = toy_serialize, deserialize = toy_deserialize, current_version = 1\<rparr>"

text \<open>
  A bundle of two accounts, its container, that container with one byte changed, and a
  manager whose \<open>decryptConfigData\<close> is the one modelled from the specification.
\<close>

definition two_accounts :: CredentialBundle where
  "two_accounts =
     \<lparr>records =
        [\<lparr>account = ''alice@example.com'', payload = [1, 2, 255], metadata = Some ''alice@example.com''\<rparr>,
         \<lparr>account = ''bob'', payload = [], metadata = None\<rparr>],
      version = 1, created = 7\<rparr>"

definition sealed_accounts :: EncryptedContainer where
  "sealed_accounts = encode toy two_accounts ''Str0ngPass!'' [9, 9] [4]"

definition tampered_accounts :: EncryptedContainer where
  "tampered_accounts = sealed_accounts\<lparr>ciphertext := (ciphertext sealed_accounts)[5 := 0]\<rparr>"

definition toy_manager :: ConfigManager where
  "toy_manager =
     \<lparr>importEncryptedConfig =
        Inr \<lparr>imp_success = True, imp_message = [], encryptedData = Some sealed_accounts\<rparr>,
      decryptConfigData = spec_decryptConfigData toy [1],
      hasExportableData = Inr True,
      exportEncryptedConfig =
        (\<lambda>password. Inr \<lparr>exp_success = True, exp_message = [], filePath = ''/tmp/accounts.enc''\<rparr>),
      validatePassword = policy\<rparr>"

section \<open>Two refreshes at once\<close>

text \<open>
  The refresh button pressed twice before anything settles, and the two activations
  settled in turn, three times each, up to their timers.
\<close>

definition two_calls :: "store_state hook" where
  "two_calls = call_handleRefresh (call_handleRefresh (idle W_alice))"

definition interleaved :: "store_state hook" where
  "interleaved =
     (settle_at store_host 1 \<circ> settle_at store_host 0 \<circ>
      settle_at store_host 1 \<circ> settle_at store_host 0 \<circ>
      settle_at store_host 1 \<circ> settle_at store_host 0) two_calls"

section \<open>Lemmas about the backup hook\<close>

text \<open>
  Each function of the hook is described by what it returns, what it adds to the trace and
  what it leaves of the fields, in terms of the host's answers from the host's state.
\<close>

lemma settle_simps:
  "settle (Inl e) = Rejected e"
  "settle (Inr v) = Resolved"
  by (simp_all add: settle_def)

lemma invoke_list_backups_eq:
  "invoke_list_backups H w =
     (fst (h_list_backups H (store w)),
      w\<lparr>trace := trace w @ [Invoke list_backups, settle (fst (h_list_backups H (store w)))],
        store := snd (h_list_backups H (store w))\<rparr>)"
  by (simp add: invoke_list_backups_def emit_def split_def Let_def)

lemma invoke_get_current_info_eq:
  "invoke_get_current_info H w =
     (fst (h_get_current_info H (store w)),
      w\<lparr>trace := trace w @ [Invoke get_current_antigravity_info,
                              settle (fst (h_get_current_info H (store w)))],
        store := snd (h_get_current_info H (store w))\<rparr>)"
  by (simp add: invoke_get_current_info_def emit_def split_def Let_def)

lemma invoke_backup_current_eq:
  "invoke_backup_current H a w =
     (fst (h_backup_current H a (store w)),
      w\<lparr>trace := trace w @ [Invoke (backup_antigravity_current_account a),
                              settle (fst (h_backup_current H a (store w)))],
        store := snd (h_backup_current H a (store w))\<rparr>)"
  by (simp add: invoke_backup_current_def emit_def split_def Let_def)

lemma invoke_delete_backup_eq:
  "invoke_delete_backup H n w =
     (fst (h_delete_backup H n (store w)),
      w\<lparr>trace := trace w @ [Invoke (delete_backup n), settle (fst (h_delete_backup H n (store w)))],
        store := snd (h_delete_backup H n (store w))\<rparr>)"
  by (simp add: invoke_delete_backup_def emit_def split_def Let_def)

lemma invoke_clear_all_eq:
  "invoke_clear_all H w =
     (fst (h_clear_all H (store w)),
      w\<lparr>trace := trace w @ [Invoke clear_all_backups, settle (fst (h_clear_all H (store w)))],
        store := snd (h_clear_all H (store w))\<rparr>)"
  by (simp add: invoke_clear_all_def emit_def split_def Let_def)

lemmas auto_defs = autoBackupCurrentUser_def autoBackup_try_def invoke_get_current_info_eq
  invoke_backup_current_eq showStatus_def emit_def settle_simps split_def Let_def

lemma added_append: "trace w' = trace w @ xs \<Longrightarrow> added w w' = xs"
  by (simp add: added_def)

lemma autoBackup_result:
  "fst (autoBackupCurrentUser H w) = Inr (backed_up (auto_backup_outcome H (store w)))"
  by (simp add: auto_defs auto_backup_outcome_def split: sum.splits option.splits prod.splits)

lemma autoBackup_trace:
  "trace (snd (autoBackupCurrentUser H w)) = trace w @ outcome_events (auto_backup_outcome H (store w))"
  by (simp add: auto_defs auto_backup_outcome_def split: sum.splits option.splits prod.splits)

lemma autoBackup_store:
  "store (snd (autoBackupCurrentUser H w)) = auto_backup_store H (store w)"
  by (simp add: auto_defs auto_backup_store_def split: sum.splits option.splits prod.splits)

lemma autoBackup_fields:
  "backups (snd (autoBackupCurrentUser H w)) = backups w"
  "isInitialLoading (snd (autoBackupCurrentUser H w)) = isInitialLoading w"
  "isRefreshing (snd (autoBackupCurrentUser H w)) = isRefreshing w"
  "isDeleting (snd (autoBackupCurrentUser H w)) = isDeleting w"
  "isClearing (snd (autoBackupCurrentUser H w)) = isClearing w"
  by (simp_all add: auto_defs split: sum.splits option.splits prod.splits)

lemma fetchBackups_result: "fst (fetchBackups H w) = fst (h_list_backups H (store w))"
  by (simp add: fetchBackups_def invoke_list_backups_eq split: sum.splits)

lemma fetchBackups_trace:
  "trace (snd (fetchBackups H w)) =
     trace w @ [Invoke list_backups, settle (fst (h_list_backups H (store w)))]"
  by (simp add: fetchBackups_def invoke_list_backups_eq split: sum.splits)

lemma fetchBackups_store: "store (snd (fetchBackups H w)) = snd (h_list_backups H (store w))"
  by (simp add: fetchBackups_def invoke_list_backups_eq split: sum.splits)

lemma fetchBackups_backups:
  "backups (snd (fetchBackups H w)) =
     (case fst (h_list_backups H (store w)) of Inl e \<Rightarrow> backups w | Inr l \<Rightarrow> l)"
  by (simp add: fetchBackups_def invoke_list_backups_eq split: sum.splits)

lemma fetchBackups_fields:
  "isInitialLoading (snd (fetchBackups H w)) = isInitialLoading w"
  "isRefreshing (snd (fetchBackups H w)) = isRefreshing w"
  "isDeleting (snd (fetchBackups H w)) = isDeleting w"
  "isClearing (snd (fetchBackups H w)) = isClearing w"
  by (simp_all add: fetchBackups_def invoke_list_backups_eq split: sum.splits)

lemma refresh_result: "fst (refreshBackupList H skip w) = Inr ()"
  by (simp add: refreshBackupList_def case_prod_beta split: sum.splits)

lemma refresh_done_fields:
  "fst (refresh_done b skip w) = Inr ()"
  "isInitialLoading (snd (refresh_done b skip w)) = False"
  "backups (snd (refresh_done b skip w)) = backups w"
  "store (snd (refresh_done b skip w)) = store w"
  "trace (snd (refresh_done b skip w)) =
     trace w @ (if b then [ShowStatus RefreshOkUpdated False]
                else if \<not> skip then [] else [ShowStatus RefreshOk False])"
  by (simp_all add: refresh_done_def showStatus_def emit_def Let_def)

lemmas refresh_defs = refreshBackupList_def refresh_try_def case_prod_beta showStatus_def emit_def
  waitForFileWrite_def

lemma refresh_loading: "isInitialLoading (snd (refreshBackupList H skip w)) = False"
  by (simp add: refresh_defs refresh_done_fields fetchBackups_result fetchBackups_fields 
       autoBackup_result autoBackup_fields
       split: sum.splits)

lemma refresh_first_rejected:
  assumes "fst (h_list_backups H (store w)) = Inl e"
  shows "backups (snd (refreshBackupList H skip w)) = backups w"
    and "trace (snd (refreshBackupList H skip w)) =
           trace w @ [Invoke list_backups, Rejected e, ShowStatus (ListFailed e) True]"
  using assms
  by (simp_all add: refresh_defs fetchBackups_result fetchBackups_backups fetchBackups_trace settle_simps)

lemma refresh_skip:
  assumes "fst (h_list_backups H (store w)) = Inr l"
  shows "backups (snd (refreshBackupList H True w)) = l"
    and "trace (snd (refreshBackupList H True w)) =
           trace w @ [Invoke list_backups, Resolved, ShowStatus RefreshOk False]"
  using assms
  by (simp_all add: refresh_defs refresh_done_fields fetchBackups_result fetchBackups_backups
        fetchBackups_trace settle_simps)

lemma refresh_not_backed_up:
  assumes "fst (h_list_backups H (store w)) = Inr l"
    and "\<not> backed_up (auto_backup_outcome H (snd (h_list_backups H (store w))))"
  shows "backups (snd (refreshBackupList H False w)) = l"
    and "trace (snd (refreshBackupList H False w)) =
           trace w @ [Invoke list_backups, Resolved]
             @ outcome_events (auto_backup_outcome H (snd (h_list_backups H (store w))))"
  using assms
  by (simp_all add: refresh_defs refresh_done_fields fetchBackups_result fetchBackups_backups
        fetchBackups_trace fetchBackups_store autoBackup_result autoBackup_trace autoBackup_fields settle_simps)

lemma refresh_backed_up:
  assumes "fst (h_list_backups H (store w)) = Inr l"
    and "auto_backup_outcome H (snd (h_list_backups H (store w))) = BackedUp a"
    and "r2 = fst (h_list_backups H (auto_backup_store H (snd (h_list_backups H (store w)))))"
  shows "backups (snd (refreshBackupList H False w)) = (case r2 of Inl e \<Rightarrow> l | Inr l2 \<Rightarrow> l2)"
    and "trace (snd (refreshBackupList H False w)) =
           trace w @ [Invoke list_backups, Resolved] @ outcome_events (BackedUp a)
             @ [Sleep FILE_WRITE_DELAY_MS, Invoke list_backups, settle r2,
                case r2 of Inl e \<Rightarrow> ShowStatus (ListFailed e) True
                         | Inr l2 \<Rightarrow> ShowStatus RefreshOkUpdated False]"
  using assms
  by (simp_all add: refresh_defs refresh_done_fields fetchBackups_result fetchBackups_backups
        fetchBackups_trace fetchBackups_store autoBackup_result autoBackup_trace autoBackup_fields
        autoBackup_store settle_simps split: sum.splits)


lemma refresh_skip_trace:
  "trace (snd (refreshBackupList H True w)) =
     trace w @ skip_refresh_events (fst (h_list_backups H (store w)))"
  by (cases "fst (h_list_backups H (store w))")
     (simp_all add: refresh_first_rejected refresh_skip skip_refresh_events_def settle_simps)

lemma refresh_fields:
  "isDeleting (snd (refreshBackupList H skip w)) = isDeleting w"
  "isClearing (snd (refreshBackupList H skip w)) = isClearing w"
  "isRefreshing (snd (refreshBackupList H skip w)) = isRefreshing w"
  by (simp_all add: refresh_defs refresh_done_def Let_def fetchBackups_result fetchBackups_fields
       autoBackup_result autoBackup_fields split: sum.splits)

lemmas store_defs = store_host_def store_list_def store_current_def store_backup_def
  store_delete_def store_clear_def next_fault_def alice_def mount_def

lemma refresh_reported_once: "reported_once (added w (snd (refreshBackupList H skip w)))"
proof (cases "fst (h_list_backups H (store w))")
  case (Inl e)
  then show ?thesis
    by (simp add: added_append [OF refresh_first_rejected(2)] reported_once_def)
next
  case (Inr l)
  show ?thesis
  proof (cases skip)
    case True
    with Inr show ?thesis
      by (simp add: added_append [OF refresh_skip(2)] reported_once_def)
  next
    case False
    show ?thesis
    proof (cases "auto_backup_outcome H (snd (h_list_backups H (store w)))")
      case (BackedUp a)
      show ?thesis
        using False
        by (cases "fst (h_list_backups H (auto_backup_store H (snd (h_list_backups H (store w)))))")
           (simp_all add: added_append [OF refresh_backed_up(2) [OF Inr BackedUp refl]]
              reported_once_def settle_simps)
    next
      case (ReadFailed e)
      then show ?thesis using False Inr
        by (simp add: added_append [OF refresh_not_backed_up(2)] reported_once_def)
    next
      case NoActiveAccount
      then show ?thesis using False Inr
        by (simp add: added_append [OF refresh_not_backed_up(2)] reported_once_def)
    next
      case (WriteFailed a e)
      then show ?thesis using False Inr
        by (simp add: added_append [OF refresh_not_backed_up(2)] reported_once_def)
    qed
  qed
qed

lemma refresh_backups_published:
  "backups (snd (refreshBackupList H skip w)) = backups w
   \<or> (\<exists>s. fst (h_list_backups H s) = Inr (backups (snd (refreshBackupList H skip w))))"
proof (cases "fst (h_list_backups H (store w))")
  case (Inl e)
  then show ?thesis by (simp add: refresh_first_rejected)
next
  case (Inr l)
  show ?thesis
  proof (cases skip)
    case True
    with Inr show ?thesis by (auto simp: refresh_skip)
  next
    case False
    show ?thesis
    proof (cases "backed_up (auto_backup_outcome H (snd (h_list_backups H (store w))))")
      case True
      then obtain a where a: "auto_backup_outcome H (snd (h_list_backups H (store w))) = BackedUp a"
        by (cases "auto_backup_outcome H (snd (h_list_backups H (store w)))") auto
      show ?thesis
      proof (cases "fst (h_list_backups H (auto_backup_store H (snd (h_list_backups H (store w)))))")
        case (Inl e)
        with False Inr show ?thesis
          by (auto simp: refresh_backed_up(1) [OF Inr a refl])
      next
        case r2: (Inr l2)
        with False show ?thesis
          by (auto simp: refresh_backed_up(1) [OF Inr a refl])
      qed
    next
      case nb: False
      with False Inr show ?thesis by (auto simp: refresh_not_backed_up)
    qed
  qed
qed

lemma handleRefresh_fields:
  "fst (handleRefresh H w) = Inr ()"
  "isRefreshing (snd (handleRefresh H w)) = False"
  by (simp_all add: handleRefresh_def case_prod_beta refresh_result)

lemmas delete_defs = confirmDeleteBackup_def delete_try_def invoke_delete_backup_eq case_prod_beta
  showStatus_def emit_def settle_simps

lemma delete_trace:
  assumes "backupToDelete w = Some n" and "n \<noteq> []"
  shows "trace (snd (confirmDeleteBackup H w)) =
           trace w @ delete_events n (fst (h_delete_backup H n (store w)))
                       (fst (h_list_backups H (snd (h_delete_backup H n (store w)))))"
  using assms
  by (simp add: delete_defs delete_events_def refresh_result refresh_skip_trace split: sum.splits)

lemma delete_rejected:
  assumes "backupToDelete w = Some n" and "n \<noteq> []"
    and "fst (h_delete_backup H n (store w)) = Inl e"
  shows "backups (snd (confirmDeleteBackup H w)) = backups w"
    and "deleteDialogOpen (snd (confirmDeleteBackup H w)) = deleteDialogOpen w"
    and "backupToDelete (snd (confirmDeleteBackup H w)) = Some n"
  using assms by (simp_all add: delete_defs)

lemma delete_flag:
  assumes "truthy (backupToDelete w)"
  shows "isDeleting (snd (confirmDeleteBackup H w)) = False"
    and "fst (confirmDeleteBackup H w) = Inr ()"
  using assms
  by (simp_all add: delete_defs refresh_result refresh_fields split: sum.splits)

lemmas clear_defs = confirmClearAllBackups_def clear_try_def invoke_clear_all_eq case_prod_beta
  showStatus_def emit_def settle_simps

lemma clear_trace:
  "trace (snd (confirmClearAllBackups H w)) =
     trace w @ clear_events (fst (h_clear_all H (store w)))
                 (fst (h_list_backups H (snd (h_clear_all H (store w)))))"
  by (simp add: clear_defs clear_events_def refresh_result refresh_skip_trace split: sum.splits)

lemma clear_flag:
  "isClearing (snd (confirmClearAllBackups H w)) = False"
  "fst (confirmClearAllBackups H w) = Inr ()"
  by (simp_all add: clear_defs refresh_result refresh_fields split: sum.splits)



lemma clear_rejected:
  assumes "fst (h_clear_all H (store w)) = Inl e"
  shows "backups (snd (confirmClearAllBackups H w)) = backups w"
    and "isClearDialogOpen (snd (confirmClearAllBackups H w)) = isClearDialogOpen w"
  using assms by (simp_all add: clear_defs)

lemma skip_refresh_events_filters:
  "filter mutating (skip_refresh_events r) = []"
  "filter auto_backup_call (skip_refresh_events r) = []"
  "length (filter is_error_status (skip_refresh_events r)) = length (filter is_rejection (skip_refresh_events r))"
  "length (filter is_rejection (skip_refresh_events r)) \<le> Suc 0"
  by (simp_all add: skip_refresh_events_def settle_def split: sum.splits)

lemma delete_events_filters:
  "filter mutating (delete_events n rd rl) = [Invoke (delete_backup n)]"
  "filter auto_backup_call (delete_events n rd rl) = []"
  "reported_once (delete_events n rd rl)"
  by (simp_all add: delete_events_def skip_refresh_events_filters reported_once_def split: sum.splits)

lemma clear_events_filters:
  "filter mutating (clear_events rc rl) = [Invoke clear_all_backups]"
  "filter auto_backup_call (clear_events rc rl) = []"
  "reported_once (clear_events rc rl)"
  by (simp_all add: clear_events_def skip_refresh_events_filters reported_once_def split: sum.splits)

lemma refresh_skip_store:
  "store (snd (refreshBackupList H True w)) = snd (h_list_backups H (store w))"
  by (simp add: refresh_defs refresh_done_fields fetchBackups_result fetchBackups_store
        split: sum.splits)

lemma delete_store:
  assumes "backupToDelete w = Some n" and "n \<noteq> []"
  shows "store (snd (confirmDeleteBackup H w)) =
           (case fst (h_delete_backup H n (store w)) of
              Inl e \<Rightarrow> snd (h_delete_backup H n (store w))
            | Inr u \<Rightarrow> snd (h_list_backups H (snd (h_delete_backup H n (store w)))))"
  using assms
  by (simp add: confirmDeleteBackup_def delete_try_def invoke_delete_backup_eq case_prod_beta
        showStatus_def emit_def refresh_result refresh_skip_store split: sum.splits)

lemma refresh_cong:
  assumes "store w1 = store w2" and "trace w1 = trace w2" and "backups w1 = backups w2"
  shows "trace (snd (refreshBackupList H skip w1)) = trace (snd (refreshBackupList H skip w2))"
    and "backups (snd (refreshBackupList H skip w1)) = backups (snd (refreshBackupList H skip w2))"
proof -
  have "trace (snd (refreshBackupList H skip w1)) = trace (snd (refreshBackupList H skip w2))
        \<and> backups (snd (refreshBackupList H skip w1)) = backups (snd (refreshBackupList H skip w2))"
  proof (cases "fst (h_list_backups H (store w2))")
    case (Inl e)
    then have "fst (h_list_backups H (store w1)) = Inl e" using assms by simp
    with Inl show ?thesis using assms by (simp add: refresh_first_rejected)
  next
    case (Inr l)
    then have l1: "fst (h_list_backups H (store w1)) = Inr l" using assms by simp
    show ?thesis
    proof (cases skip)
      case True
      with Inr l1 show ?thesis using assms by (simp add: refresh_skip)
    next
      case False
      show ?thesis
      proof (cases "backed_up (auto_backup_outcome H (snd (h_list_backups H (store w2))))")
        case nb: False
        then have "\<not> backed_up (auto_backup_outcome H (snd (h_list_backups H (store w1))))"
          using assms by simp
        with nb False Inr l1 show ?thesis using assms by (simp add: refresh_not_backed_up)
      next
        case True
        then obtain a where a: "auto_backup_outcome H (snd (h_list_backups H (store w2))) = BackedUp a"
          by (cases "auto_backup_outcome H (snd (h_list_backups H (store w2)))") auto
        then have a1: "auto_backup_outcome H (snd (h_list_backups H (store w1))) = BackedUp a"
          using assms by simp
        show ?thesis
          using False assms
          by (simp add: refresh_backed_up [OF Inr a refl] refresh_backed_up [OF l1 a1 refl])
      qed
    qed
  qed
  then show "trace (snd (refreshBackupList H skip w1)) = trace (snd (refreshBackupList H skip w2))"
    and "backups (snd (refreshBackupList H skip w1)) = backups (snd (refreshBackupList H skip w2))"
    by simp_all
qed

lemma handleRefresh_as_refresh:
  "trace (snd (handleRefresh H w)) = trace (snd (refreshBackupList H False w))"
  "backups (snd (handleRefresh H w)) = backups (snd (refreshBackupList H False w))"
  "isInitialLoading (snd (handleRefresh H w)) = False"
proof -
  have t: "trace (snd (handleRefresh H w)) = trace (snd (refreshBackupList H False (w\<lparr>isRefreshing := True\<rparr>)))"
    and b: "backups (snd (handleRefresh H w)) = backups (snd (refreshBackupList H False (w\<lparr>isRefreshing := True\<rparr>)))"
    and i: "isInitialLoading (snd (handleRefresh H w)) = isInitialLoading (snd (refreshBackupList H False (w\<lparr>isRefreshing := True\<rparr>)))"
    by (simp_all add: handleRefresh_def case_prod_beta refresh_result)
  show "trace (snd (handleRefresh H w)) = trace (snd (refreshBackupList H False w))"
    using t refresh_cong(1) [of "w\<lparr>isRefreshing := True\<rparr>" w H False] by simp
  show "backups (snd (handleRefresh H w)) = backups (snd (refreshBackupList H False w))"
    using b refresh_cong(2) [of "w\<lparr>isRefreshing := True\<rparr>" w H False] by simp
  show "isInitialLoading (snd (handleRefresh H w)) = False"
    using i by (simp add: refresh_loading)
qed

lemma handleRefresh_added:
  "added w (snd (handleRefresh H w)) = added w (snd (refreshBackupList H False w))"
  by (simp add: added_def handleRefresh_as_refresh)

lemma refresh_later_rejection:
  assumes "fst (h_list_backups H (store w)) = Inr l"
    and "filter is_rejection (added w (snd (refreshBackupList H skip w))) \<noteq> []"
  shows "backups (snd (refreshBackupList H skip w)) = l"
proof (cases skip)
  case True
  with assms show ?thesis by (simp add: refresh_skip)
next
  case False
  show ?thesis
  proof (cases "backed_up (auto_backup_outcome H (snd (h_list_backups H (store w))))")
    case nb: False
    with False assms show ?thesis by (simp add: refresh_not_backed_up)
  next
    case True
    then obtain a where a: "auto_backup_outcome H (snd (h_list_backups H (store w))) = BackedUp a"
      by (cases "auto_backup_outcome H (snd (h_list_backups H (store w)))") auto
    show ?thesis
    proof (cases "fst (h_list_backups H (auto_backup_store H (snd (h_list_backups H (store w)))))")
      case (Inl e)
      with False show ?thesis by (simp add: refresh_backed_up(1) [OF assms(1) a refl])
    next
      case (Inr l2)
      with False assms(2) show ?thesis
        by (simp add: added_append [OF refresh_backed_up(2) [OF assms(1) a refl]] settle_simps)
    qed
  qed
qed

lemma delete_backups_published:
  "backups (snd (confirmDeleteBackup H w)) = backups w
   \<or> (\<exists>s. fst (h_list_backups H s) = Inr (backups (snd (confirmDeleteBackup H w))))"
proof (cases "truthy (backupToDelete w)")
  case False
  then show ?thesis by (simp add: confirmDeleteBackup_def)
next
  case True
  let ?n = "the (backupToDelete w)"
  show ?thesis
  proof (cases "fst (h_delete_backup H ?n (store w))")
    case (Inl e)
    with True show ?thesis by (simp add: delete_defs)
  next
    case (Inr u)
    let ?w2 = "(showStatus (DeleteOk ?n) False
                 (w\<lparr>isDeleting := True,
                     trace := trace w @ [Invoke (delete_backup ?n), settle (fst (h_delete_backup H ?n (store w)))],
                     store := snd (h_delete_backup H ?n (store w))\<rparr>))
               \<lparr>deleteDialogOpen := False, backupToDelete := None\<rparr>"
    have "backups (snd (confirmDeleteBackup H w)) = backups (snd (refreshBackupList H True ?w2))"
      using True Inr
      by (simp add: confirmDeleteBackup_def delete_try_def invoke_delete_backup_eq case_prod_beta
            refresh_result)
    moreover have "backups ?w2 = backups w"
      by (simp add: showStatus_def emit_def)
    ultimately show ?thesis
      using refresh_backups_published [of H True ?w2] by auto
  qed
qed

lemma clear_backups_published:
  "backups (snd (confirmClearAllBackups H w)) = backups w
   \<or> (\<exists>s. fst (h_list_backups H s) = Inr (backups (snd (confirmClearAllBackups H w))))"
proof (cases "fst (h_clear_all H (store w))")
  case (Inl e)
  then show ?thesis by (simp add: clear_rejected)
next
  case (Inr result)
  let ?w2 = "(showStatus (Verbatim result) False
               (w\<lparr>isClearing := True,
                   trace := trace w @ [Invoke clear_all_backups, settle (fst (h_clear_all H (store w)))],
                   store := snd (h_clear_all H (store w))\<rparr>))
             \<lparr>isClearDialogOpen := False\<rparr>"
  have "backups (snd (confirmClearAllBackups H w)) = backups (snd (refreshBackupList H True ?w2))"
    using Inr
    by (simp add: confirmClearAllBackups_def clear_try_def invoke_clear_all_eq case_prod_beta
          refresh_result)
  moreover have "backups ?w2 = backups w"
    by (simp add: showStatus_def emit_def)
  ultimately show ?thesis
    using refresh_backups_published [of H True ?w2] by auto
qed

lemma delete_always:
  "fst (confirmDeleteBackup H w) = Inr ()"
  "reported_once (added w (snd (confirmDeleteBackup H w)))"
  "isDeleting (snd (confirmDeleteBackup H w)) = (if truthy (backupToDelete w) then False else isDeleting w)"
proof -
  show "fst (confirmDeleteBackup H w) = Inr ()"
  proof (cases "truthy (backupToDelete w)")
    case True
    then show ?thesis by (simp add: delete_flag)
  next
    case False
    then show ?thesis by (simp add: confirmDeleteBackup_def)
  qed
  show "isDeleting (snd (confirmDeleteBackup H w)) = (if truthy (backupToDelete w) then False else isDeleting w)"
  proof (cases "truthy (backupToDelete w)")
    case True
    then show ?thesis by (simp add: delete_flag)
  next
    case False
    then show ?thesis by (simp add: confirmDeleteBackup_def)
  qed
  show "reported_once (added w (snd (confirmDeleteBackup H w)))"
  proof (cases "backupToDelete w")
    case None
    then show ?thesis by (simp add: confirmDeleteBackup_def added_def reported_once_def)
  next
    case (Some n)
    show ?thesis
    proof (cases "n = []")
      case True
      with Some show ?thesis by (simp add: confirmDeleteBackup_def added_def reported_once_def)
    next
      case False
      with Some show ?thesis by (simp add: added_append [OF delete_trace] delete_events_filters)
    qed
  qed
qed

lemma decimal_0: "decimal 0 = ''0''"
  by (simp add: decimal.simps)

lemma refresh_skip_backups:
  "backups (snd (refreshBackupList H True w)) =
     (case fst (h_list_backups H (store w)) of Inl e \<Rightarrow> backups w | Inr l \<Rightarrow> l)"
  by (cases "fst (h_list_backups H (store w))")
     (simp_all add: refresh_first_rejected refresh_skip)

lemma delete_backups:
  assumes "backupToDelete w = Some n" and "n \<noteq> []"
  shows "backups (snd (confirmDeleteBackup H w)) =
           (case fst (h_delete_backup H n (store w)) of
              Inl e \<Rightarrow> backups w
            | Inr u \<Rightarrow>
                (case fst (h_list_backups H (snd (h_delete_backup H n (store w)))) of
                   Inl e \<Rightarrow> backups w
                 | Inr l \<Rightarrow> l))"
  using assms
  by (simp add: confirmDeleteBackup_def delete_try_def invoke_delete_backup_eq case_prod_beta
        showStatus_def emit_def refresh_result refresh_skip_backups split: sum.splits)

lemma clear_backups:
  "backups (snd (confirmClearAllBackups H w)) =
     (case fst (h_clear_all H (store w)) of
        Inl e \<Rightarrow> backups w
      | Inr result \<Rightarrow>
          (case fst (h_list_backups H (snd (h_clear_all H (store w)))) of
             Inl e \<Rightarrow> backups w
           | Inr l \<Rightarrow> l))"
  by (simp add: confirmClearAllBackups_def clear_try_def invoke_clear_all_eq case_prod_beta
        showStatus_def emit_def refresh_result refresh_skip_backups split: sum.splits)

lemma store_delete_absent:
  assumes "n \<notin> set (entries s)" and "faults s = []"
  shows "fst (h_delete_backup store_host n s) = Inl ''backup not found''"
  using assms by (simp add: store_host_def store_delete_def next_fault_def)

lemma store_delete_then_list_rejected:
  assumes "n \<in> set (entries s)" and "faults s = [False, True]"
  shows "fst (h_delete_backup store_host n s) = Inr ()"
    and "fst (h_list_backups store_host (snd (h_delete_backup store_host n s))) = Inl ''store unavailable''"
    and "snd (h_list_backups store_host (snd (h_delete_backup store_host n s)))
         = s\<lparr>entries := removeAll n (entries s), faults := []\<rparr>"
  using assms
  by (simp_all add: store_host_def store_delete_def store_list_def next_fault_def)

lemma store_clear_empty:
  assumes "entries s = []" and "faults s = []"
  shows "fst (h_clear_all store_host s) = Inr ''removed 0''"
    and "fst (h_list_backups store_host (snd (h_clear_all store_host s))) = Inr []"
  using assms
  by (simp_all add: store_host_def store_clear_def store_list_def next_fault_def decimal_0)

section \<open>Lemmas about the configuration hook and the codec\<close>

lemma shown_since_ui: "shown_since st (ui ev st) = [ev]"
  by (simp add: shown_since_def ui_def)

lemma ui_fields:
  "isImporting (ui ev st) = isImporting st"
  "isExporting (ui ev st) = isExporting st"
  "shown (ui ev st) = shown st @ [ev]"
  by (simp_all add: ui_def)

lemma shown_since_same: "shown_since st st = []"
  by (simp add: shown_since_def)

lemma shown_since_append: "shown st' = shown st @ evs \<Longrightarrow> shown_since st st' = evs"
  by (simp add: shown_since_def)

lemma exportConfig_cases:
  "hasExportableData cm = Inl e \<Longrightarrow> exportConfig cm st = (Inl e, st)"
  "hasExportableData cm = Inr False \<Longrightarrow>
     exportConfig cm st = (Inr (), ui (Status NoExportableData True) st)"
  "hasExportableData cm = Inr True \<Longrightarrow>
     exportConfig cm st =
       (Inr (), ui (ShowPasswordDialog
                   \<lparr>title = ExportTitle, description = SetExportPassword,
                    requireConfirmation = True, onSubmit = ExportSubmit,
                    dialog_validatePassword = validatePassword cm\<rparr>) st)"
  by (simp_all add: exportConfig_def)

lemma importConfig_cases:
  "importEncryptedConfig cm = Inl e \<Longrightarrow>
     importConfig cm st = (Inr (), ui (Status (SelectFileFailed e) True) st)"
  "importEncryptedConfig cm = Inr r \<Longrightarrow> \<not> imp_success r \<Longrightarrow>
     importConfig cm st = (Inr (), ui (Status (Verbatim (imp_message r)) True) st)"
  "importEncryptedConfig cm = Inr r \<Longrightarrow> imp_success r \<Longrightarrow>
     importConfig cm st =
       (Inr (), ui (ShowPasswordDialog
                   \<lparr>title = ImportTitle, description = EnterDecryptionPassword,
                    requireConfirmation = False, onSubmit = ImportSubmit (encryptedData r),
                    dialog_validatePassword = validatePassword cm\<rparr>) st)"
  by (simp_all add: importConfig_def import_try_def)

lemma char_of_byte_of_char: "char_of_byte (byte_of_char c) = c"
  by (simp add: byte_of_char_def char_of_byte_def unat_of_nat)

lemma get_put_nat: "get_nat (put_nat n @ rest) = Some (n, rest)"
  by (induction n) simp_all

lemma get_put_bytes: "get_bytes (put_bytes bs @ rest) = Some (bs, rest)"
  by (simp add: get_bytes_def put_bytes_def get_put_nat)

lemma get_put_string: "get_string (put_string s @ rest) = Some (s, rest)"
  by (simp add: get_string_def put_string_def get_put_bytes comp_def char_of_byte_of_char)

lemma get_put_option: "get_option (put_option m @ rest) = Some (m, rest)"
  by (cases m) (simp_all add: get_put_string)

lemma get_put_record: "get_record (put_record r @ rest) = Some (r, rest)"
  by (simp add: get_record_def put_record_def get_put_string get_put_bytes get_put_option)

lemma get_put_records: "get_records (length rs) (put_records rs @ rest) = Some (rs, rest)"
  by (induction rs) (simp_all add: get_put_record)

lemma toy_deserialize_serialize: "toy_deserialize (toy_serialize b) = Some b"
  using get_put_records [of "records b" "[]"]
  by (simp add: toy_deserialize_def toy_serialize_def get_put_nat)

lemma toy_unseal_seal: "toy_unseal k n (toy_seal k n plain) = Some plain"
  by (simp add: toy_unseal_def toy_seal_def comp_def)

lemma import_onSubmit_failure:
  assumes "decryptConfigData cm data password
           = Inr \<lparr>dec_success = False, dec_message = m, configData = None\<rparr>"
  shows "fst (import_onSubmit cm data password st) = Inr ()"
    and "shown (snd (import_onSubmit cm data password st)) =
           shown st @ [ClosePasswordDialog, Status Decrypting False, Status (Verbatim m) True]"
    and "isImporting (snd (import_onSubmit cm data password st)) = False"
  using assms
  by (simp_all add: import_onSubmit_def import_submit_try_def Let_def ui_fields)

section \<open>Lemmas about refreshes in flight\<close>

lemma run_alone_refresh:
  "run_alone 5 H (Some (fst (begin_refresh skip w)), snd (begin_refresh skip w))
   = (None, snd (refreshBackupList H skip w))"
  apply (simp add: numeral_eq_Suc begin_refresh_def)
  apply (simp add: refreshBackupList_def refresh_try_def fetchBackups_def invoke_list_backups_def
     autoBackupCurrentUser_def autoBackup_try_def invoke_get_current_info_def invoke_backup_current_def
     refresh_catch_def Let_def case_prod_beta emit_def showStatus_def waitForFileWrite_def refresh_done_def
     split: sum.splits option.splits)
  done

lemma call_refreshBackupList_eq:
  "call_refreshBackupList skip c =
     c\<lparr>now := emit (Invoke list_backups) (now c), in_flight := in_flight c @ [(AtList1 skip, False)]\<rparr>"
  by (simp add: call_refreshBackupList_def begin_refresh_def)

lemma call_handleRefresh_eq:
  "call_handleRefresh c =
     c\<lparr>now := emit (Invoke list_backups) ((now c)\<lparr>isRefreshing := True\<rparr>),
       in_flight := in_flight c @ [(AtList1 False, True)]\<rparr>"
  by (simp add: call_handleRefresh_def begin_refresh_def)

lemma calls_in_flight:
  "length (in_flight ((call_handleRefresh ^^ k) c)) = length (in_flight c) + k"
  by (induction k) (simp_all add: call_handleRefresh_eq)



section \<open>Claims\<close>

text \<open>
  C1. For every bundle and password, and whatever salt and nonce \<open>encode\<close> drew,
  decoding the container under the same password gives back the bundle, the payload of
  every record included, provided the cipher returns under \<open>unseal\<close> what it was given
  under \<open>seal\<close> with the same key and nonce, and the serialisation can be read back.
\<close>

theorem decode_encode_round_trip:
  assumes "\<forall>k n plain. unseal C k n (seal C k n plain) = Some plain"
    and "\<forall>b. deserialize C (serialize C b) = Some b"
  shows "decode C (encode C B P fresh_salt fresh_nonce) P = Inr B"
  using assms by (simp add: decode_def encode_def)

text \<open>The theorem at the codec for concrete runs and a bundle of two accounts.\<close>

theorem decode_encode_round_trip_witness:
  "decode toy (encode toy two_accounts ''Str0ngPass!'' [9, 9] [4]) ''Str0ngPass!'' = Inr two_accounts
   \<and> map payload (records two_accounts) = [[1, 2, 255], []]"
proof -
  have a: "\<forall>k n plain. unseal toy k n (seal toy k n plain) = Some plain"
    by (simp add: toy_def toy_unseal_seal)
  have b: "\<forall>b. deserialize toy (serialize toy b) = Some b"
    by (simp add: toy_def toy_deserialize_serialize)
  show ?thesis
    using decode_encode_round_trip [OF a b, of two_accounts "''Str0ngPass!''" "[9, 9]" "[4]"]
    by (simp add: two_accounts_def)
qed

text \<open>
  C2, as the specification states it, fails: the refresh button pressed twice before the
  first list arrives leaves two activations in flight, each with its own \<open>list_backups\<close>
  sent; settled in turn, both read the live account and both write the backup.
\<close>

theorem single_flight_refresh_counterexample:
  "in_flight two_calls = [(AtList1 False, True), (AtList1 False, True)]
   \<and> trace (now two_calls) = [Invoke list_backups, Invoke list_backups]
   \<and> in_flight interleaved = [(AtSleep, True), (AtSleep, True)]
   \<and> filter auto_backup_call (trace (now interleaved)) =
       [Invoke get_current_antigravity_info, Invoke get_current_antigravity_info,
        Invoke (backup_antigravity_current_account ''alice@example.com''),
        Invoke (backup_antigravity_current_account ''alice@example.com'')]"
  by code_simp

text \<open>
  C2, amended. A call of \<open>refreshBackupList\<close> or of \<open>handleRefresh\<close> consults no busy
  flag: whatever is in flight, it adds an activation of its own and sends its
  \<open>list_backups\<close> at once, so \<open>k\<close> calls leave \<open>k\<close> more sequences outstanding. Each
  activation, when its promises settle with nothing in between, does what
  \<open>refreshBackupList\<close> does.
\<close>

theorem every_refresh_call_starts_its_own_sequence:
  "in_flight (call_refreshBackupList skip c) = in_flight c @ [(AtList1 skip, False)]
   \<and> added (now c) (now (call_refreshBackupList skip c)) = [Invoke list_backups]
   \<and> in_flight (call_handleRefresh c) = in_flight c @ [(AtList1 False, True)]
   \<and> added (now c) (now (call_handleRefresh c)) = [Invoke list_backups]
   \<and> length (in_flight ((call_handleRefresh ^^ k) c)) = length (in_flight c) + k
   \<and> run_alone 5 H (Some (fst (begin_refresh skip w)), snd (begin_refresh skip w))
       = (None, snd (refreshBackupList H skip w))"
  by (simp add: call_refreshBackupList_eq call_handleRefresh_eq calls_in_flight run_alone_refresh
        added_def emit_def)

text \<open>
  C3, as the specification states it, fails: a refresh whose auto-backup succeeded sleeps
  \<open>FILE_WRITE_DELAY_MS\<close> before it reads the list again. Here the store is empty and
  alice is the live account.
\<close>

theorem refresh_rereads_after_fixed_delay_counterexample:
  "added W_fresh (snd (refreshBackupList store_host False W_fresh)) =
     [Invoke list_backups, Resolved, Invoke get_current_antigravity_info, Resolved,
      Invoke (backup_antigravity_current_account ''alice@example.com''), Resolved,
      ShowStatus (AutoBackedUp ''alice@example.com'') False, Sleep 500,
      Invoke list_backups, Resolved, ShowStatus RefreshOkUpdated False]"
  by code_simp

text \<open>
  C3, amended. In every refresh with the auto-backup not skipped in which the write
  succeeds, the second read of the list is sent only after the promise of the write has
  resolved (the write's own acknowledgment) and, after that, after a fixed wait of
  \<open>FILE_WRITE_DELAY_MS\<close> = 500 milliseconds: the trace is exactly the first read, the
  read of the live account, the write and its resolution, the status, the sleep, the
  second read and the final status.
\<close>

theorem reread_after_acknowledgment_and_delay:
  assumes "fst (h_list_backups H (store w)) = Inr l"
    and "auto_backup_outcome H (snd (h_list_backups H (store w))) = BackedUp a"
  shows "added w (snd (refreshBackupList H False w)) =
           [Invoke list_backups, Resolved, Invoke get_current_antigravity_info, Resolved,
            Invoke (backup_antigravity_current_account a), Resolved,
            ShowStatus (AutoBackedUp a) False, Sleep FILE_WRITE_DELAY_MS, Invoke list_backups,
            settle (fst (h_list_backups H (auto_backup_store H (snd (h_list_backups H (store w)))))),
            case fst (h_list_backups H (auto_backup_store H (snd (h_list_backups H (store w))))) of
              Inl e \<Rightarrow> ShowStatus (ListFailed e) True
            | Inr l2 \<Rightarrow> ShowStatus RefreshOkUpdated False]
         \<and> FILE_WRITE_DELAY_MS = 500"
  using added_append [OF refresh_backed_up(2) [OF assms refl]]
  by (simp add: FILE_WRITE_DELAY_MS_def)

text \<open>The theorem at a store holding bob's backup, alice being the live account.\<close>

theorem reread_after_acknowledgment_and_delay_witness:
  "fst (h_list_backups store_host (store W_alice)) = Inr [''bob'']
   \<and> auto_backup_outcome store_host (snd (h_list_backups store_host (store W_alice)))
       = BackedUp ''alice@example.com''
   \<and> added W_alice (snd (refreshBackupList store_host False W_alice)) =
       [Invoke list_backups, Resolved, Invoke get_current_antigravity_info, Resolved,
        Invoke (backup_antigravity_current_account ''alice@example.com''), Resolved,
        ShowStatus (AutoBackedUp ''alice@example.com'') False, Sleep 500, Invoke list_backups,
        Resolved, ShowStatus RefreshOkUpdated False]
   \<and> backups (snd (refreshBackupList store_host False W_alice)) = [''bob'', ''alice@example.com'']"
proof -
  have l: "fst (h_list_backups store_host (store W_alice)) = Inr [''bob'']"
    by (simp add: W_alice_def store_defs)
  have b: "auto_backup_outcome store_host (snd (h_list_backups store_host (store W_alice)))
       = BackedUp ''alice@example.com''"
    by (simp add: W_alice_def store_defs auto_backup_outcome_def)
  have l2: "fst (h_list_backups store_host
               (auto_backup_store store_host (snd (h_list_backups store_host (store W_alice)))))
            = Inr [''bob'', ''alice@example.com'']"
    by (simp add: W_alice_def store_defs auto_backup_store_def)
  have p: "backups (snd (refreshBackupList store_host False W_alice)) = [''bob'', ''alice@example.com'']"
    using refresh_backed_up(1) [OF l b refl] l2 by simp
  show ?thesis
    using reread_after_acknowledgment_and_delay [OF l b] l b l2 p
    by (simp add: settle_simps FILE_WRITE_DELAY_MS_def)
qed

text \<open>
  C4. When \<open>decode\<close> fails with \<open>AuthenticationFailed\<close>, the import's \<open>onSubmit\<close>
  closes the dialog, shows the progress note and then exactly one error status, the
  generic text \<open>incorrect password or corrupted file\<close> as the manager gave it, and
  clears \<open>isImporting\<close>. The text is the same for a wrong password and for a changed
  container, since both are \<open>AuthenticationFailed\<close>.
\<close>

theorem authentication_failure_reported_generically:
  assumes "decryptConfigData cm = spec_decryptConfigData C supported"
    and "decode C container password = Inl AuthenticationFailed"
  shows "fst (import_onSubmit cm (Some container) password st) = Inr ()
     \<and> shown_since st (snd (import_onSubmit cm (Some container) password st)) =
         [ClosePasswordDialog, Status Decrypting False, Status (Verbatim generic_failure) True]
     \<and> error_texts (shown_since st (snd (import_onSubmit cm (Some container) password st))) =
         [Verbatim generic_failure]
     \<and> isImporting (snd (import_onSubmit cm (Some container) password st)) = False"
proof -
  have "decryptConfigData cm (Some container) password
        = Inr \<lparr>dec_success = False, dec_message = generic_failure, configData = None\<rparr>"
    using assms by (simp add: spec_decryptConfigData_def)
  from import_onSubmit_failure [OF this, of st] show ?thesis
    by (simp add: shown_since_append)
qed

text \<open>The theorem at a wrong password and at a container with one byte changed.\<close>

theorem authentication_failure_reported_generically_witness:
  "decode toy sealed_accounts ''str0ngPass!'' = Inl AuthenticationFailed
   \<and> decode toy tampered_accounts ''Str0ngPass!'' = Inl AuthenticationFailed
   \<and> shown (snd (import_onSubmit toy_manager (Some sealed_accounts) ''str0ngPass!'' hook_mounted)) =
       [ClosePasswordDialog, Status Decrypting False,
        Status (Verbatim ''incorrect password or corrupted file'') True]
   \<and> shown (snd (import_onSubmit toy_manager (Some tampered_accounts) ''Str0ngPass!'' hook_mounted)) =
       [ClosePasswordDialog, Status Decrypting False,
        Status (Verbatim ''incorrect password or corrupted file'') True]"
proof -
  have m: "decryptConfigData toy_manager = spec_decryptConfigData toy [1]"
    by (simp add: toy_manager_def)
  have w: "decode toy sealed_accounts ''str0ngPass!'' = Inl AuthenticationFailed"
    by code_simp
  have t: "decode toy tampered_accounts ''Str0ngPass!'' = Inl AuthenticationFailed"
    by code_simp
  have s: "shown_since hook_mounted st = shown st" for st
    by (simp add: shown_since_def hook_mounted_def)
  show ?thesis
    using authentication_failure_reported_generically [OF m w, of hook_mounted]
      authentication_failure_reported_generically [OF m t, of hook_mounted] w t
    by (simp add: s generic_failure_def)
qed

text \<open>
  C5, as the specification states it, fails: a refresh that fails with a store error can
  leave a list that is not the one published before it. The first read succeeds and is
  published, the auto-backup succeeds, and the second read is rejected.
\<close>

theorem failed_refresh_keeps_snapshot_counterexample:
  "backups W_flaky = []
   \<and> backups (snd (refreshBackupList store_host False W_flaky)) = [''bob'']
   \<and> added W_flaky (snd (refreshBackupList store_host False W_flaky)) =
       [Invoke list_backups, Resolved, Invoke get_current_antigravity_info, Resolved,
        Invoke (backup_antigravity_current_account ''alice@example.com''), Resolved,
        ShowStatus (AutoBackedUp ''alice@example.com'') False, Sleep 500, Invoke list_backups,
        Rejected ''store unavailable'', ShowStatus (ListFailed ''store unavailable'') True]"
  by code_simp

text \<open>
  C5, amended. No operation of the coordinator throws: \<open>refreshBackupList\<close>,
  \<open>handleRefresh\<close>, \<open>confirmDeleteBackup\<close> and \<open>confirmClearAllBackups\<close> resolve whatever
  the host answers. Each, run to its end, reports its failures once (as many error
  statuses as rejected requests, at most one; \<open>handleRefresh\<close> adds nothing to what its
  refresh reports) and leaves its loading flag cleared (\<open>isInitialLoading\<close>,
  \<open>isRefreshing\<close>, \<open>isDeleting\<close>, \<open>isClearing\<close>). The published list is never partly
  overwritten: after each operation it is the list published before or a list the host
  returned whole. When the first read of a refresh, the delete or the clear-all is
  rejected, it is the list published before, and the trace is the request, its rejection
  and one error status. When a later step of a refresh is rejected (the read of the live
  account, the write, or the second read of the list), it is the list of the refresh's
  first read, which that read had already published.
\<close>

theorem store_failures_reported_once:
  "fst (refreshBackupList H skip w) = Inr ()
   \<and> isInitialLoading (snd (refreshBackupList H skip w)) = False
   \<and> reported_once (added w (snd (refreshBackupList H skip w)))
   \<and> (backups (snd (refreshBackupList H skip w)) = backups w
        \<or> (\<exists>s. fst (h_list_backups H s) = Inr (backups (snd (refreshBackupList H skip w)))))
   \<and> (fst (h_list_backups H (store w)) = Inl e \<longrightarrow>
          backups (snd (refreshBackupList H skip w)) = backups w
          \<and> added w (snd (refreshBackupList H skip w)) =
              [Invoke list_backups, Rejected e, ShowStatus (ListFailed e) True])
   \<and> (fst (h_list_backups H (store w)) = Inr l
        \<and> filter is_rejection (added w (snd (refreshBackupList H skip w))) \<noteq> [] \<longrightarrow>
          backups (snd (refreshBackupList H skip w)) = l)
   \<and> (fst (h_list_backups H (store w)) = Inr l
        \<and> auto_backup_outcome H (snd (h_list_backups H (store w))) = BackedUp a
        \<and> fst (h_list_backups H (auto_backup_store H (snd (h_list_backups H (store w))))) = Inl e2 \<longrightarrow>
          backups (snd (refreshBackupList H False w)) = l
          \<and> added w (snd (refreshBackupList H False w)) =
              [Invoke list_backups, Resolved, Invoke get_current_antigravity_info, Resolved,
               Invoke (backup_antigravity_current_account a), Resolved,
               ShowStatus (AutoBackedUp a) False, Sleep FILE_WRITE_DELAY_MS, Invoke list_backups,
               Rejected e2, ShowStatus (ListFailed e2) True])
   \<and> fst (handleRefresh H w) = Inr ()
   \<and> isRefreshing (snd (handleRefresh H w)) = False
   \<and> isInitialLoading (snd (handleRefresh H w)) = False
   \<and> added w (snd (handleRefresh H w)) = added w (snd (refreshBackupList H False w))
   \<and> backups (snd (handleRefresh H w)) = backups (snd (refreshBackupList H False w))
   \<and> reported_once (added w (snd (handleRefresh H w)))
   \<and> fst (confirmDeleteBackup H w) = Inr ()
   \<and> isDeleting (snd (confirmDeleteBackup H w))
       = (if truthy (backupToDelete w) then False else isDeleting w)
   \<and> reported_once (added w (snd (confirmDeleteBackup H w)))
   \<and> (backups (snd (confirmDeleteBackup H w)) = backups w
        \<or> (\<exists>s. fst (h_list_backups H s) = Inr (backups (snd (confirmDeleteBackup H w)))))
   \<and> (backupToDelete w = Some n \<and> n \<noteq> [] \<and> fst (h_delete_backup H n (store w)) = Inl e3 \<longrightarrow>
          backups (snd (confirmDeleteBackup H w)) = backups w
          \<and> added w (snd (confirmDeleteBackup H w)) =
              [Invoke (delete_backup n), Rejected e3, ShowStatus (DeleteFailed e3) True])
   \<and> fst (confirmClearAllBackups H w) = Inr ()
   \<and> isClearing (snd (confirmClearAllBackups H w)) = False
   \<and> reported_once (added w (snd (confirmClearAllBackups H w)))
   \<and> (backups (snd (confirmClearAllBackups H w)) = backups w
        \<or> (\<exists>s. fst (h_list_backups H s) = Inr (backups (snd (confirmClearAllBackups H w)))))
   \<and> (fst (h_clear_all H (store w)) = Inl e4 \<longrightarrow>
          backups (snd (confirmClearAllBackups H w)) = backups w
          \<and> added w (snd (confirmClearAllBackups H w)) =
              [Invoke clear_all_backups, Rejected e4, ShowStatus (ClearFailed e4) True])"
proof -
  have r1: "fst (h_list_backups H (store w)) = Inl e \<longrightarrow>
          backups (snd (refreshBackupList H skip w)) = backups w
          \<and> added w (snd (refreshBackupList H skip w)) =
              [Invoke list_backups, Rejected e, ShowStatus (ListFailed e) True]"
    by (simp add: refresh_first_rejected(1) added_append [OF refresh_first_rejected(2)])
  have r2: "fst (h_list_backups H (store w)) = Inr l
        \<and> filter is_rejection (added w (snd (refreshBackupList H skip w))) \<noteq> [] \<longrightarrow>
          backups (snd (refreshBackupList H skip w)) = l"
    using refresh_later_rejection by blast
  have r3: "fst (h_list_backups H (store w)) = Inr l
        \<and> auto_backup_outcome H (snd (h_list_backups H (store w))) = BackedUp a
        \<and> fst (h_list_backups H (auto_backup_store H (snd (h_list_backups H (store w))))) = Inl e2 \<longrightarrow>
          backups (snd (refreshBackupList H False w)) = l
          \<and> added w (snd (refreshBackupList H False w)) =
              [Invoke list_backups, Resolved, Invoke get_current_antigravity_info, Resolved,
               Invoke (backup_antigravity_current_account a), Resolved,
               ShowStatus (AutoBackedUp a) False, Sleep FILE_WRITE_DELAY_MS, Invoke list_backups,
               Rejected e2, ShowStatus (ListFailed e2) True]"
  proof (intro impI, elim conjE)
    assume l: "fst (h_list_backups H (store w)) = Inr l"
      and a: "auto_backup_outcome H (snd (h_list_backups H (store w))) = BackedUp a"
      and e: "fst (h_list_backups H (auto_backup_store H (snd (h_list_backups H (store w))))) = Inl e2"
    show "backups (snd (refreshBackupList H False w)) = l
          \<and> added w (snd (refreshBackupList H False w)) =
              [Invoke list_backups, Resolved, Invoke get_current_antigravity_info, Resolved,
               Invoke (backup_antigravity_current_account a), Resolved,
               ShowStatus (AutoBackedUp a) False, Sleep FILE_WRITE_DELAY_MS, Invoke list_backups,
               Rejected e2, ShowStatus (ListFailed e2) True]"
      using refresh_backed_up(1) [OF l a refl] added_append [OF refresh_backed_up(2) [OF l a refl]] e
      by (simp add: settle_simps)
  qed
  have h: "reported_once (added w (snd (handleRefresh H w)))"
    by (simp add: handleRefresh_added refresh_reported_once)
  have d2: "backupToDelete w = Some n \<and> n \<noteq> [] \<and> fst (h_delete_backup H n (store w)) = Inl e3 \<longrightarrow>
          backups (snd (confirmDeleteBackup H w)) = backups w
          \<and> added w (snd (confirmDeleteBackup H w)) =
              [Invoke (delete_backup n), Rejected e3, ShowStatus (DeleteFailed e3) True]"
    by (simp add: delete_rejected(1) added_append [OF delete_trace] delete_events_def)
  have c1: "reported_once (added w (snd (confirmClearAllBackups H w)))"
    by (simp add: added_append [OF clear_trace] clear_events_filters)
  have c2: "fst (h_clear_all H (store w)) = Inl e4 \<longrightarrow>
          backups (snd (confirmClearAllBackups H w)) = backups w
          \<and> added w (snd (confirmClearAllBackups H w)) =
              [Invoke clear_all_backups, Rejected e4, ShowStatus (ClearFailed e4) True]"
    by (simp add: clear_rejected(1) added_append [OF clear_trace] clear_events_def)
  show ?thesis
    using r1 r2 r3 h d2 c1 c2 refresh_result [of H skip w] refresh_loading [of H skip w]
      refresh_reported_once [of w H skip] refresh_backups_published [of H skip w]
      handleRefresh_fields handleRefresh_as_refresh(2,3)
      handleRefresh_added [of w H] delete_always delete_backups_published [of H w]
      clear_flag clear_backups_published [of H w]
    by (intro conjI) blast+
qed

text \<open>
  The theorem at a store that rejects the next command while bob's backup is published
  and chosen for deletion, and at a store that rejects the second read of a refresh.
\<close>

theorem store_failures_reported_once_witness:
  "backups W_stale = [''bob'']
   \<and> backupToDelete W_stale = Some ''bob''
   \<and> fst (h_list_backups store_host (store W_stale)) = Inl ''store unavailable''
   \<and> fst (h_delete_backup store_host ''bob'' (store W_stale)) = Inl ''store unavailable''
   \<and> fst (h_clear_all store_host (store W_stale)) = Inl ''store unavailable''
   \<and> backups (snd (refreshBackupList store_host False W_stale)) = [''bob'']
   \<and> added W_stale (snd (refreshBackupList store_host False W_stale)) =
       [Invoke list_backups, Rejected ''store unavailable'',
        ShowStatus (ListFailed ''store unavailable'') True]
   \<and> isInitialLoading (snd (refreshBackupList store_host False W_stale)) = False
   \<and> added W_stale (snd (handleRefresh store_host W_stale)) =
       [Invoke list_backups, Rejected ''store unavailable'',
        ShowStatus (ListFailed ''store unavailable'') True]
   \<and> backups (snd (handleRefresh store_host W_stale)) = [''bob'']
   \<and> isRefreshing (snd (handleRefresh store_host W_stale)) = False
   \<and> backups (snd (confirmDeleteBackup store_host W_stale)) = [''bob'']
   \<and> added W_stale (snd (confirmDeleteBackup store_host W_stale)) =
       [Invoke (delete_backup ''bob''), Rejected ''store unavailable'',
        ShowStatus (DeleteFailed ''store unavailable'') True]
   \<and> isDeleting (snd (confirmDeleteBackup store_host W_stale)) = False
   \<and> backups (snd (confirmClearAllBackups store_host W_stale)) = [''bob'']
   \<and> added W_stale (snd (confirmClearAllBackups store_host W_stale)) =
       [Invoke clear_all_backups, Rejected ''store unavailable'',
        ShowStatus (ClearFailed ''store unavailable'') True]
   \<and> isClearing (snd (confirmClearAllBackups store_host W_stale)) = False
   \<and> fst (h_list_backups store_host (store W_flaky)) = Inr [''bob'']
   \<and> auto_backup_outcome store_host (snd (h_list_backups store_host (store W_flaky)))
       = BackedUp ''alice@example.com''
   \<and> fst (h_list_backups store_host
             (auto_backup_store store_host (snd (h_list_backups store_host (store W_flaky)))))
       = Inl ''store unavailable''
   \<and> backups W_flaky = []
   \<and> backups (snd (refreshBackupList store_host False W_flaky)) = [''bob'']"
proof -
  have b: "backups W_stale = [''bob'']" by code_simp
  have n: "backupToDelete W_stale = Some ''bob''" by code_simp
  have l: "fst (h_list_backups store_host (store W_stale)) = Inl ''store unavailable''" by code_simp
  have d: "fst (h_delete_backup store_host ''bob'' (store W_stale)) = Inl ''store unavailable''"
    by code_simp
  have c: "fst (h_clear_all store_host (store W_stale)) = Inl ''store unavailable''" by code_simp
  have t: "truthy (backupToDelete W_stale)" using n by simp
  have fl: "fst (h_list_backups store_host (store W_flaky)) = Inr [''bob'']"
    by (simp add: W_flaky_def store_defs)
  have fa: "auto_backup_outcome store_host (snd (h_list_backups store_host (store W_flaky)))
       = BackedUp ''alice@example.com''"
    by (simp add: W_flaky_def store_defs auto_backup_outcome_def)
  have fe: "fst (h_list_backups store_host
             (auto_backup_store store_host (snd (h_list_backups store_host (store W_flaky)))))
       = Inl ''store unavailable''"
    by (simp add: W_flaky_def store_defs auto_backup_store_def)
  have fb: "backups W_flaky = []" by (simp add: W_flaky_def mount_def)
  show ?thesis
    using store_failures_reported_once
            [of store_host False W_stale "''store unavailable''" "[]" "''x''" "''y''"
                "''bob''" "''store unavailable''" "''store unavailable''"]
          store_failures_reported_once
            [of store_host False W_flaky "''z''" "[''bob'']" "''alice@example.com''"
                "''store unavailable''" "''bob''" "''x''" "''y''"]
          b n l d c t fl fa fe fb
    by simp
qed

text \<open>
  C6. Deleting a name that is already absent is shown as an error, never as a success:
  \<open>confirmDeleteBackup\<close> shows every rejection of \<open>delete_backup\<close> as an error status,
  and the store of section 6 rejects an absent name, so the second of two deletes of one
  name, reached while the list still shows it, is the error \<open>backup not found\<close>. Clearing
  when there is nothing to clear is not an error: \<open>confirmClearAllBackups\<close> shows the
  store's answer as it is, without the error flag, and on an empty store that answer is
  the count zero. With an empty list the section renders no clear-all button, so the
  refusal in \<open>handleClearAllBackups\<close> is never reached by a click; with a non-empty list
  the click only opens the dialog.
\<close>

theorem absent_delete_is_error_and_empty_clear_reports_zero:
  "(backupToDelete w = Some n \<and> n \<noteq> [] \<and> fst (h_delete_backup H n (store w)) = Inl e \<longrightarrow>
      added w (snd (confirmDeleteBackup H w)) =
        [Invoke (delete_backup n), Rejected e, ShowStatus (DeleteFailed e) True])
   \<and> (backupToDelete v = Some n \<and> n \<noteq> [] \<and> n \<notin> set (entries (store v)) \<and> faults (store v) = [] \<longrightarrow>
      added v (snd (confirmDeleteBackup store_host v)) =
        [Invoke (delete_backup n), Rejected ''backup not found'',
         ShowStatus (DeleteFailed ''backup not found'') True])
   \<and> (backupToDelete v = Some n \<and> n \<noteq> [] \<and> n \<in> set (entries (store v))
        \<and> faults (store v) = [False, True] \<longrightarrow>
      backups (snd (confirmDeleteBackup store_host v)) = backups v
      \<and> added (handleDeleteBackup n (snd (confirmDeleteBackup store_host v)))
           (snd (confirmDeleteBackup store_host
                  (handleDeleteBackup n (snd (confirmDeleteBackup store_host v))))) =
          [Invoke (delete_backup n), Rejected ''backup not found'',
           ShowStatus (DeleteFailed ''backup not found'') True])
   \<and> (backups w = [] \<longrightarrow> click_clear_all w = None)
   \<and> (backups w \<noteq> [] \<longrightarrow> click_clear_all w = Some (w\<lparr>isClearDialogOpen := True\<rparr>))
   \<and> (fst (h_clear_all H (store w)) = Inr result \<longrightarrow>
      added w (snd (confirmClearAllBackups H w)) =
        [Invoke clear_all_backups, Resolved, ShowStatus (Verbatim result) False]
          @ skip_refresh_events (fst (h_list_backups H (snd (h_clear_all H (store w))))))
   \<and> (entries (store v) = [] \<and> faults (store v) = [] \<longrightarrow>
      added v (snd (confirmClearAllBackups store_host v)) =
        [Invoke clear_all_backups, Resolved, ShowStatus (Verbatim ''removed 0'') False,
         Invoke list_backups, Resolved, ShowStatus RefreshOk False]
      \<and> filter is_error_status (added v (snd (confirmClearAllBackups store_host v))) = []
      \<and> backups (snd (confirmClearAllBackups store_host v)) = [])"
proof -
  have a: "backupToDelete w = Some n \<and> n \<noteq> [] \<and> fst (h_delete_backup H n (store w)) = Inl e \<longrightarrow>
      added w (snd (confirmDeleteBackup H w)) =
        [Invoke (delete_backup n), Rejected e, ShowStatus (DeleteFailed e) True]"
    by (simp add: added_append [OF delete_trace] delete_events_def)
  have b: "backupToDelete v = Some n \<and> n \<noteq> [] \<and> n \<notin> set (entries (store v)) \<and> faults (store v) = [] \<longrightarrow>
      added v (snd (confirmDeleteBackup store_host v)) =
        [Invoke (delete_backup n), Rejected ''backup not found'',
         ShowStatus (DeleteFailed ''backup not found'') True]"
    by (simp add: added_append [OF delete_trace] store_delete_absent delete_events_def)
  have b2: "backupToDelete v = Some n \<and> n \<noteq> [] \<and> n \<in> set (entries (store v))
        \<and> faults (store v) = [False, True] \<longrightarrow>
      backups (snd (confirmDeleteBackup store_host v)) = backups v
      \<and> added (handleDeleteBackup n (snd (confirmDeleteBackup store_host v)))
           (snd (confirmDeleteBackup store_host
                  (handleDeleteBackup n (snd (confirmDeleteBackup store_host v))))) =
          [Invoke (delete_backup n), Rejected ''backup not found'',
           ShowStatus (DeleteFailed ''backup not found'') True]"
  proof (intro impI, elim conjE)
    assume c: "backupToDelete v = Some n" and ne: "n \<noteq> []" and m: "n \<in> set (entries (store v))"
      and f: "faults (store v) = [False, True]"
    let ?v1 = "snd (confirmDeleteBackup store_host v)"
    note s = store_delete_then_list_rejected [OF m f]
    have st: "store ?v1 = (store v)\<lparr>entries := removeAll n (entries (store v)), faults := []\<rparr>"
      using delete_store [OF c ne, of store_host] by (simp add: s)
    have bk: "backups ?v1 = backups v"
      using delete_backups [OF c ne, of store_host] by (simp add: s)
    have t: "backupToDelete (handleDeleteBackup n ?v1) = Some n"
      "store (handleDeleteBackup n ?v1) = store ?v1"
      by (simp_all add: handleDeleteBackup_def)
    have r: "fst (h_delete_backup store_host n (store ?v1)) = Inl ''backup not found''"
      by (rule store_delete_absent) (simp_all add: st)
    have "added (handleDeleteBackup n ?v1) (snd (confirmDeleteBackup store_host (handleDeleteBackup n ?v1))) =
          [Invoke (delete_backup n), Rejected ''backup not found'',
           ShowStatus (DeleteFailed ''backup not found'') True]"
      using ne by (simp add: added_append [OF delete_trace [OF t(1)]] t(2) r delete_events_def)
    with bk show "backups ?v1 = backups v
      \<and> added (handleDeleteBackup n ?v1) (snd (confirmDeleteBackup store_host (handleDeleteBackup n ?v1))) =
          [Invoke (delete_backup n), Rejected ''backup not found'',
           ShowStatus (DeleteFailed ''backup not found'') True]"
      by simp
  qed
  have c0: "backups w = [] \<longrightarrow> click_clear_all w = None"
    by (simp add: click_clear_all_def)
  have c1: "backups w \<noteq> [] \<longrightarrow> click_clear_all w = Some (w\<lparr>isClearDialogOpen := True\<rparr>)"
    by (simp add: click_clear_all_def handleClearAllBackups_def)
  have c2: "fst (h_clear_all H (store w)) = Inr result \<longrightarrow>
      added w (snd (confirmClearAllBackups H w)) =
        [Invoke clear_all_backups, Resolved, ShowStatus (Verbatim result) False]
          @ skip_refresh_events (fst (h_list_backups H (snd (h_clear_all H (store w)))))"
    by (simp add: added_append [OF clear_trace] clear_events_def)
  have c3: "entries (store v) = [] \<and> faults (store v) = [] \<longrightarrow>
      added v (snd (confirmClearAllBackups store_host v)) =
        [Invoke clear_all_backups, Resolved, ShowStatus (Verbatim ''removed 0'') False,
         Invoke list_backups, Resolved, ShowStatus RefreshOk False]
      \<and> filter is_error_status (added v (snd (confirmClearAllBackups store_host v))) = []
      \<and> backups (snd (confirmClearAllBackups store_host v)) = []"
    by (simp add: added_append [OF clear_trace] clear_backups store_clear_empty clear_events_def
          skip_refresh_events_def settle_simps)
  show ?thesis using a b b2 c0 c1 c2 c3 by blast
qed

text \<open>
  The theorem along a run of the section: bob's backup is deleted while the read that
  follows is rejected, so the list still shows it; deleting it again is an error;
  clearing all, the store being empty by then, reports zero removed and no error.
\<close>

theorem absent_delete_is_error_and_empty_clear_reports_zero_witness:
  "backups S1 = [''bob'']
   \<and> click_delete ''bob'' S1 = Some S2
   \<and> click_confirm_delete store_host S2 = Some (Inr (), S3)
   \<and> backups S3 = [''bob''] \<and> entries (store S3) = []
   \<and> click_delete ''bob'' S3 = Some S4
   \<and> added S4 (snd (confirmDeleteBackup store_host S4)) =
       [Invoke (delete_backup ''bob''), Rejected ''backup not found'',
        ShowStatus (DeleteFailed ''backup not found'') True]
   \<and> click_clear_all S3 = Some S5
   \<and> click_confirm_clear store_host S5 = Some (Inr (), S6)
   \<and> added S5 S6 =
       [Invoke clear_all_backups, Resolved, ShowStatus (Verbatim ''removed 0'') False,
        Invoke list_backups, Resolved, ShowStatus RefreshOk False]
   \<and> backups S6 = []
   \<and> click_clear_all S6 = None"
proof -
  have k1: "backups S1 = [''bob'']" by code_simp
  have k2: "click_delete ''bob'' S1 = Some S2" by code_simp
  have k3: "click_confirm_delete store_host S2 = Some (Inr (), S3)" by code_simp
  have k4: "backups S3 = [''bob'']" by code_simp
  have k5: "entries (store S3) = []" by code_simp
  have k6: "click_delete ''bob'' S3 = Some S4" by code_simp
  have k7: "click_clear_all S3 = Some S5" by code_simp
  have k8: "click_confirm_clear store_host S5 = Some (Inr (), S6)" by code_simp
  note k = k1 k2 k3 k4 k5 k6 k7 k8
  have h2a: "backupToDelete S2 = Some ''bob''" by code_simp
  have h2b: "''bob'' \<in> set (entries (store S2))" by code_simp
  have h2c: "faults (store S2) = [False, True]" by code_simp
  note h2 = h2a h2b h2c
  have h5a: "entries (store S5) = []" by code_simp
  have h5b: "faults (store S5) = []" by code_simp
  note h5 = h5a h5b
  have e: "S4 = handleDeleteBackup ''bob'' (snd (confirmDeleteBackup store_host S2))"
    by (simp add: S4_def S3_def)
  have b6: "backups S6 = []"
    using absent_delete_is_error_and_empty_clear_reports_zero
            [of S5 "''bob''" store_host "''e''" S5 "''r''"] h5
    by (simp add: S6_def)
  show ?thesis
    using absent_delete_is_error_and_empty_clear_reports_zero
            [of S6 "''bob''" store_host "''e''" S2 "''r''"]
          absent_delete_is_error_and_empty_clear_reports_zero
            [of S5 "''bob''" store_host "''e''" S5 "''r''"]
          k h2 h5 e b6
    by (simp add: S6_def)
qed

text \<open>
  C7. When the manager reports no exportable data, \<open>exportConfig\<close> resolves at once
  after the one error status \<open>NoExportableData\<close> and shows no password dialog; a
  password dialog is shown exactly when the manager reports exportable data.
\<close>

theorem export_without_data_fails_fast:
  "(hasExportableData cm = Inr False \<longrightarrow>
      fst (exportConfig cm st) = Inr ()
      \<and> shown_since st (snd (exportConfig cm st)) = [Status NoExportableData True]
      \<and> isExporting (snd (exportConfig cm st)) = isExporting st)
   \<and> (dialogs (shown_since st (snd (exportConfig cm st))) \<noteq> [] \<longleftrightarrow> hasExportableData cm = Inr True)"
proof (cases "hasExportableData cm")
  case (Inl e)
  then show ?thesis
    by (simp add: exportConfig_cases shown_since_same)
next
  case (Inr b)
  then show ?thesis
    by (cases b) (simp_all add: exportConfig_cases shown_since_ui ui_fields)
qed

text \<open>The theorem at a manager without data, beside a manager with data.\<close>

theorem export_without_data_fails_fast_witness:
  "hasExportableData manager_without_data = Inr False
   \<and> exportConfig manager_without_data hook_mounted =
       (Inr (), \<lparr>isImporting = False, isExporting = False, shown = [Status NoExportableData True]\<rparr>)
   \<and> dialogs (shown (snd (exportConfig manager_without_data hook_mounted))) = []
   \<and> hasExportableData manager_with_data = Inr True
   \<and> length (dialogs (shown (snd (exportConfig manager_with_data hook_mounted)))) = 1"
proof -
  have a: "hasExportableData manager_without_data = Inr False"
    by (simp add: manager_without_data_def)
  have b: "hasExportableData manager_with_data = Inr True"
    by (simp add: manager_with_data_def)
  have c: "exportConfig manager_without_data hook_mounted =
       (Inr (), \<lparr>isImporting = False, isExporting = False, shown = [Status NoExportableData True]\<rparr>)"
    using export_without_data_fails_fast [of manager_without_data hook_mounted] a
    by (simp add: exportConfig_def ui_def hook_mounted_def)
  have d: "length (dialogs (shown (snd (exportConfig manager_with_data hook_mounted)))) = 1"
    by (simp add: exportConfig_cases(3) [OF b] ui_def hook_mounted_def)
  show ?thesis
    using export_without_data_fails_fast [of manager_without_data hook_mounted] a b c d
    by simp
qed

text \<open>
  C8. Every password dialog the export shows asks for confirmation, every password
  dialog the import shows does not, and both carry the same validation: the
  \<open>validatePassword\<close> of the hook's one \<open>ConfigManager\<close>. The export shows its dialog
  whenever there is exportable data, the import whenever a file was read.
\<close>

theorem confirmation_for_export_not_for_import:
  "list_all (\<lambda>d. requireConfirmation d \<and> dialog_validatePassword d = validatePassword cm)
      (dialogs (shown_since st (snd (exportConfig cm st))))
   \<and> list_all (\<lambda>d. \<not> requireConfirmation d \<and> dialog_validatePassword d = validatePassword cm)
      (dialogs (shown_since st (snd (importConfig cm st))))
   \<and> (hasExportableData cm = Inr True \<longrightarrow>
        length (dialogs (shown_since st (snd (exportConfig cm st)))) = 1)
   \<and> (importEncryptedConfig cm = Inr r \<and> imp_success r \<longrightarrow>
        length (dialogs (shown_since st (snd (importConfig cm st)))) = 1)"
proof -
  have e: "list_all (\<lambda>d. requireConfirmation d \<and> dialog_validatePassword d = validatePassword cm)
      (dialogs (shown_since st (snd (exportConfig cm st))))"
  proof (cases "hasExportableData cm")
    case (Inl e)
    then show ?thesis by (simp add: exportConfig_cases shown_since_same)
  next
    case (Inr b)
    then show ?thesis by (cases b) (simp_all add: exportConfig_cases shown_since_ui)
  qed
  have i: "list_all (\<lambda>d. \<not> requireConfirmation d \<and> dialog_validatePassword d = validatePassword cm)
      (dialogs (shown_since st (snd (importConfig cm st))))"
  proof (cases "importEncryptedConfig cm")
    case (Inl e)
    then show ?thesis by (simp add: importConfig_cases shown_since_ui)
  next
    case (Inr r)
    then show ?thesis by (cases "imp_success r") (simp_all add: importConfig_cases shown_since_ui)
  qed
  have e1: "hasExportableData cm = Inr True \<longrightarrow>
        length (dialogs (shown_since st (snd (exportConfig cm st)))) = 1"
    by (simp add: exportConfig_cases shown_since_ui)
  have i1: "importEncryptedConfig cm = Inr r \<and> imp_success r \<longrightarrow>
        length (dialogs (shown_since st (snd (importConfig cm st)))) = 1"
    by (simp add: importConfig_cases shown_since_ui)
  show ?thesis using e i e1 i1 by blast
qed

text \<open>The theorem at a manager with data and a readable file.\<close>

theorem confirmation_for_export_not_for_import_witness:
  "hasExportableData manager_with_data = Inr True
   \<and> map requireConfirmation (dialogs (shown (snd (exportConfig manager_with_data hook_mounted)))) = [True]
   \<and> map requireConfirmation (dialogs (shown (snd (importConfig manager_with_data hook_mounted)))) = [False]
   \<and> map dialog_validatePassword (dialogs (shown (snd (exportConfig manager_with_data hook_mounted))))
       = map dialog_validatePassword (dialogs (shown (snd (importConfig manager_with_data hook_mounted))))"
proof -
  have b: "hasExportableData manager_with_data = Inr True"
    by (simp add: manager_with_data_def)
  have r: "importEncryptedConfig manager_with_data
           = Inr \<lparr>imp_success = True, imp_message = [], encryptedData = Some a_container\<rparr>"
    by (simp add: manager_with_data_def)
  have s: "shown_since hook_mounted st = shown st" for st
    by (simp add: shown_since_def hook_mounted_def)
  show ?thesis
    using confirmation_for_export_not_for_import
            [of manager_with_data hook_mounted
                "\<lparr>imp_success = True, imp_message = [], encryptedData = Some a_container\<rparr>"] b r
    by (simp add: s exportConfig_cases(3) [OF b] importConfig_cases(3) [OF r] ui_def hook_mounted_def)
qed

text \<open>
  C9, as the specification states it, fails: the refresh after a delete is not
  unconditional. When the store rejects the delete, no refresh follows.
\<close>

theorem delete_always_refreshes_counterexample:
  "added W_down (snd (confirmDeleteBackup store_host W_down)) =
     [Invoke (delete_backup ''bob''), Rejected ''store unavailable'',
      ShowStatus (DeleteFailed ''store unavailable'') True]"
  by code_simp

text \<open>
  C9, amended. A confirmed delete of a chosen name and a confirmed clear-all send one
  mutating command to the store. When the store resolves it, the success is shown and a
  refresh with \<open>skipAutoBackup = true\<close> follows, which sends \<open>list_backups\<close> alone; when
  the store rejects it, the error is shown and no refresh follows. In neither case is the
  live account read or a backup written.
\<close>

theorem destructive_call_then_refresh_on_success:
  "(backupToDelete w = Some n \<and> n \<noteq> [] \<longrightarrow>
      added w (snd (confirmDeleteBackup H w)) =
        (case fst (h_delete_backup H n (store w)) of
           Inl e \<Rightarrow> [Invoke (delete_backup n), Rejected e, ShowStatus (DeleteFailed e) True]
         | Inr u \<Rightarrow>
             [Invoke (delete_backup n), Resolved, ShowStatus (DeleteOk n) False]
               @ skip_refresh_events (fst (h_list_backups H (snd (h_delete_backup H n (store w))))))
      \<and> filter mutating (added w (snd (confirmDeleteBackup H w))) = [Invoke (delete_backup n)]
      \<and> filter auto_backup_call (added w (snd (confirmDeleteBackup H w))) = [])
   \<and> added w (snd (confirmClearAllBackups H w)) =
        (case fst (h_clear_all H (store w)) of
           Inl e \<Rightarrow> [Invoke clear_all_backups, Rejected e, ShowStatus (ClearFailed e) True]
         | Inr result \<Rightarrow>
             [Invoke clear_all_backups, Resolved, ShowStatus (Verbatim result) False]
               @ skip_refresh_events (fst (h_list_backups H (snd (h_clear_all H (store w))))))
   \<and> filter mutating (added w (snd (confirmClearAllBackups H w))) = [Invoke clear_all_backups]
   \<and> filter auto_backup_call (added w (snd (confirmClearAllBackups H w))) = []
   \<and> added w (snd (refreshBackupList H True w)) = skip_refresh_events (fst (h_list_backups H (store w)))"
proof -
  have d: "backupToDelete w = Some n \<and> n \<noteq> [] \<longrightarrow>
      added w (snd (confirmDeleteBackup H w)) =
        (case fst (h_delete_backup H n (store w)) of
           Inl e \<Rightarrow> [Invoke (delete_backup n), Rejected e, ShowStatus (DeleteFailed e) True]
         | Inr u \<Rightarrow>
             [Invoke (delete_backup n), Resolved, ShowStatus (DeleteOk n) False]
               @ skip_refresh_events (fst (h_list_backups H (snd (h_delete_backup H n (store w))))))
      \<and> filter mutating (added w (snd (confirmDeleteBackup H w))) = [Invoke (delete_backup n)]
      \<and> filter auto_backup_call (added w (snd (confirmDeleteBackup H w))) = []"
    by (simp add: added_append [OF delete_trace] delete_events_filters)
       (simp add: delete_events_def)
  have c: "added w (snd (confirmClearAllBackups H w)) =
        (case fst (h_clear_all H (store w)) of
           Inl e \<Rightarrow> [Invoke clear_all_backups, Rejected e, ShowStatus (ClearFailed e) True]
         | Inr result \<Rightarrow>
             [Invoke clear_all_backups, Resolved, ShowStatus (Verbatim result) False]
               @ skip_refresh_events (fst (h_list_backups H (snd (h_clear_all H (store w))))))"
    by (simp add: added_append [OF clear_trace] clear_events_def)
  have cf: "filter mutating (added w (snd (confirmClearAllBackups H w))) = [Invoke clear_all_backups]"
    "filter auto_backup_call (added w (snd (confirmClearAllBackups H w))) = []"
    by (simp_all add: added_append [OF clear_trace] clear_events_filters)
  have r: "added w (snd (refreshBackupList H True w)) = skip_refresh_events (fst (h_list_backups H (store w)))"
    by (simp add: added_append [OF refresh_skip_trace])
  show ?thesis using d c cf r by blast
qed

text \<open>The theorem at the delete of bob's backup, which the store holds.\<close>

theorem destructive_call_then_refresh_on_success_witness:
  "backupToDelete (handleDeleteBackup ''bob'' W_alice) = Some ''bob''
   \<and> added (handleDeleteBackup ''bob'' W_alice)
        (snd (confirmDeleteBackup store_host (handleDeleteBackup ''bob'' W_alice))) =
       [Invoke (delete_backup ''bob''), Resolved, ShowStatus (DeleteOk ''bob'') False,
        Invoke list_backups, Resolved, ShowStatus RefreshOk False]
   \<and> backups (snd (confirmDeleteBackup store_host (handleDeleteBackup ''bob'' W_alice))) = []"
proof -
  have n: "backupToDelete (handleDeleteBackup ''bob'' W_alice) = Some ''bob''"
    by (simp add: handleDeleteBackup_def)
  have d: "fst (h_delete_backup store_host ''bob'' (store (handleDeleteBackup ''bob'' W_alice))) = Inr ()"
    by (simp add: handleDeleteBackup_def W_alice_def store_defs)
  have l: "fst (h_list_backups store_host
             (snd (h_delete_backup store_host ''bob'' (store (handleDeleteBackup ''bob'' W_alice))))) = Inr []"
    by (simp add: handleDeleteBackup_def W_alice_def store_defs)
  have b: "backups (snd (confirmDeleteBackup store_host (handleDeleteBackup ''bob'' W_alice))) = []"
    by code_simp
  show ?thesis
    using destructive_call_then_refresh_on_success
            [of "handleDeleteBackup ''bob'' W_alice" "''bob''" store_host] n d l b
    by (simp add: skip_refresh_events_def settle_simps)
qed

text \<open>
  C10. The auto-backup step never throws into the refresh. Whatever the host answers,
  \<open>autoBackupCurrentUser\<close> resolves; when the read of the live account is rejected,
  when there is no active account and when the write is rejected it returns false after
  exactly one status message, flagged as an error for the two rejections and not for the
  missing account; it never touches the published list. The enclosing refresh then
  resolves as well, with the list of its first read published and the loading flag
  cleared, and adds no message of its own.
\<close>

theorem autoBackupCurrentUser_total:
  "(case auto_backup_outcome H (store w) of
      ReadFailed e \<Rightarrow>
        fst (autoBackupCurrentUser H w) = Inr False
        \<and> added w (snd (autoBackupCurrentUser H w)) =
            [Invoke get_current_antigravity_info, Rejected e, ShowStatus (AutoBackupFailed e) True]
    | NoActiveAccount \<Rightarrow>
        fst (autoBackupCurrentUser H w) = Inr False
        \<and> added w (snd (autoBackupCurrentUser H w)) =
            [Invoke get_current_antigravity_info, Resolved, ShowStatus NoLoggedInUser False]
    | WriteFailed a e \<Rightarrow>
        fst (autoBackupCurrentUser H w) = Inr False
        \<and> added w (snd (autoBackupCurrentUser H w)) =
            [Invoke get_current_antigravity_info, Resolved,
             Invoke (backup_antigravity_current_account a), Rejected e,
             ShowStatus (AutoBackupFailed e) True]
    | BackedUp a \<Rightarrow> fst (autoBackupCurrentUser H w) = Inr True)
   \<and> backups (snd (autoBackupCurrentUser H w)) = backups w
   \<and> (fst (h_list_backups H (store w)) = Inr l
        \<and> \<not> backed_up (auto_backup_outcome H (snd (h_list_backups H (store w))))
      \<longrightarrow> fst (refreshBackupList H False w) = Inr ()
          \<and> backups (snd (refreshBackupList H False w)) = l
          \<and> isInitialLoading (snd (refreshBackupList H False w)) = False
          \<and> added w (snd (refreshBackupList H False w)) =
              [Invoke list_backups, Resolved]
                @ outcome_events (auto_backup_outcome H (snd (h_list_backups H (store w)))))"
proof -
  have "case auto_backup_outcome H (store w) of
      ReadFailed e \<Rightarrow>
        fst (autoBackupCurrentUser H w) = Inr False
        \<and> added w (snd (autoBackupCurrentUser H w)) =
            [Invoke get_current_antigravity_info, Rejected e, ShowStatus (AutoBackupFailed e) True]
    | NoActiveAccount \<Rightarrow>
        fst (autoBackupCurrentUser H w) = Inr False
        \<and> added w (snd (autoBackupCurrentUser H w)) =
            [Invoke get_current_antigravity_info, Resolved, ShowStatus NoLoggedInUser False]
    | WriteFailed a e \<Rightarrow>
        fst (autoBackupCurrentUser H w) = Inr False
        \<and> added w (snd (autoBackupCurrentUser H w)) =
            [Invoke get_current_antigravity_info, Resolved,
             Invoke (backup_antigravity_current_account a), Rejected e,
             ShowStatus (AutoBackupFailed e) True]
    | BackedUp a \<Rightarrow> fst (autoBackupCurrentUser H w) = Inr True"
    by (cases "auto_backup_outcome H (store w)")
       (simp_all add: autoBackup_result added_append [OF autoBackup_trace])
  moreover have "backups (snd (autoBackupCurrentUser H w)) = backups w"
    by (rule autoBackup_fields)
  moreover have "fst (h_list_backups H (store w)) = Inr l
        \<and> \<not> backed_up (auto_backup_outcome H (snd (h_list_backups H (store w))))
      \<longrightarrow> fst (refreshBackupList H False w) = Inr ()
          \<and> backups (snd (refreshBackupList H False w)) = l
          \<and> isInitialLoading (snd (refreshBackupList H False w)) = False
          \<and> added w (snd (refreshBackupList H False w)) =
              [Invoke list_backups, Resolved]
                @ outcome_events (auto_backup_outcome H (snd (h_list_backups H (store w))))"
    by (simp add: refresh_result refresh_loading refresh_not_backed_up(1)
          added_append [OF refresh_not_backed_up(2)])
  ultimately show ?thesis by blast
qed

text \<open>The theorem at a store holding one backup and no live account.\<close>

theorem autoBackupCurrentUser_total_witness:
  "fst (h_list_backups store_host (store W_none)) = Inr [''bob'']
   \<and> auto_backup_outcome store_host (snd (h_list_backups store_host (store W_none))) = NoActiveAccount
   \<and> fst (autoBackupCurrentUser store_host W_none) = Inr False
   \<and> fst (refreshBackupList store_host False W_none) = Inr ()
   \<and> backups (snd (refreshBackupList store_host False W_none)) = [''bob'']
   \<and> isInitialLoading (snd (refreshBackupList store_host False W_none)) = False
   \<and> added W_none (snd (refreshBackupList store_host False W_none)) =
         [Invoke list_backups, Resolved, Invoke get_current_antigravity_info, Resolved,
          ShowStatus NoLoggedInUser False]"
proof -
  have l: "fst (h_list_backups store_host (store W_none)) = Inr [''bob'']"
    by (simp add: W_none_def store_defs)
  have o1: "auto_backup_outcome store_host (snd (h_list_backups store_host (store W_none))) = NoActiveAccount"
    by (simp add: W_none_def store_defs auto_backup_outcome_def)
  have o0: "auto_backup_outcome store_host (store W_none) = NoActiveAccount"
    by (simp add: W_none_def store_defs auto_backup_outcome_def)
  show ?thesis
    using autoBackupCurrentUser_total [of store_host W_none "[''bob'']"] l o1 o0 by simp
qed

end
